theory Spec2Isabelle
  imports Main "HOL-Library.Multiset"
begin

section \<open>Errors, readers and the values that cross the package boundary\<close>

text \<open>
  A Go \<open>error\<close> is either a plain message or a message that wraps a cause
  (\<open>fmt.Errorf\<close> with \<open>%w\<close>, \<open>errors.Wrapf\<close>). A nil error is \<open>None\<close>.
\<close>

datatype error = Error string | Wrapped string error

fun Error_text :: "error \<Rightarrow> string" where
  "Error_text (Error s) = s"
| "Error_text (Wrapped s cause) = s"

fun Unwrap :: "error \<Rightarrow> error option" where
  "Unwrap (Error s) = None"
| "Unwrap (Wrapped s cause) = Some cause"

text \<open>\<open>fmt.Errorf(pre + "%w" + post, err)\<close>: the text of \<open>err\<close> is spliced into the
  message and \<open>err\<close> stays reachable through \<open>Unwrap\<close>.\<close>

definition fmt_Errorf_w :: "string \<Rightarrow> error \<Rightarrow> string \<Rightarrow> error" where
  "fmt_Errorf_w pre err post = Wrapped (pre @ Error_text err @ post) err"

text \<open>\<open>errors.Wrapf(err, msg)\<close> of github.com/pkg/errors: nil stays nil, otherwise the
  message is put in front of the cause's text.\<close>

definition errors_Wrapf :: "error option \<Rightarrow> string \<Rightarrow> error option" where
  "errors_Wrapf err msg =
     (case err of None \<Rightarrow> None
      | Some e \<Rightarrow> Some (Wrapped (msg @ '': '' @ Error_text e) e))"

text \<open>An \<open>io.Reader\<close> read to its end: the bytes it delivers, then EOF (\<open>None\<close>) or a
  read error.\<close>

datatype Reader = Reader (delivered: string) (read_error: "error option")


definition bytes_NewReader :: "string \<Rightarrow> Reader" where
  "bytes_NewReader b = Reader b None"

text \<open>\<open>bytes.Buffer.ReadFrom\<close>: appends what the reader delivers and reports the
  reader's error (EOF is not an error).\<close>

definition Buffer_ReadFrom :: "string \<Rightarrow> Reader \<Rightarrow> string \<times> error option" where
  "Buffer_ReadFrom b r = (b @ delivered r, read_error r)"

definition Buffer_Reset :: "string \<Rightarrow> string" where
  "Buffer_Reset b = []"

text \<open>A result that may also be a Go panic.\<close>

datatype 'a outcome = Return 'a | Panic string

text \<open>\<open>time.Time\<close> as an instant on a line; the zero value is instant 0.\<close>

type_synonym Time = int

definition After :: "Time \<Rightarrow> Time \<Rightarrow> bool" where
  "After t u = (u < t)"

section \<open>The timestamp and archive model\<close>

record Timestamp =
  TS :: nat
  Inc :: nat

definition zero_Timestamp :: Timestamp where
  "zero_Timestamp = \<lparr>TS = 0, Inc = 0\<rparr>"

text \<open>Modelled from the spec: the package \<open>models\<close> (the \<open>Timestamp\<close> order and
  \<open>MaxTS\<close>) is not among the sources. The spec has a timestamp as wall-clock seconds
  plus an in-second counter, totally ordered, and \<open>MaxTS(a, b)\<close> as the later of the
  two.\<close>

definition LessTS :: "Timestamp \<Rightarrow> Timestamp \<Rightarrow> bool" where
  "LessTS a b = (TS a < TS b \<or> (TS a = TS b \<and> Inc a < Inc b))"

definition MaxTS :: "Timestamp \<Rightarrow> Timestamp \<Rightarrow> Timestamp" where
  "MaxTS a b = (if LessTS a b then b else a)"

datatype ArchiveType = ArchiveTypeOplog | ArchiveTypeGap

record Archive =
  Start :: Timestamp
  End :: Timestamp
  Ext :: string
  Type :: ArchiveType

section \<open>Backups, folders and the collaborators of the loader\<close>

record Backup =
  BackupName :: string
  StartLocalTime :: Time
  FinishLocalTime :: Time
  UserData :: string
  MongoMeta :: string

definition zero_Backup :: Backup where
  "zero_Backup = \<lparr>BackupName = [], StartLocalTime = 0, FinishLocalTime = 0,
     UserData = [], MongoMeta = []\<rparr>"

datatype Folder = Folder (Path: string)

record Object =
  Name :: string
  LastModified :: Time

text \<open>\<open>internal.NewBackup(folder, name)\<close>: the handle of one backup in a folder.\<close>

datatype internal_Backup = NewBackup (Backup_Folder: Folder) (Backup_Name: string)

datatype Compressor = Compressor (FileExtension: string)

datatype Crypter = Crypter string

text \<open>Every call that leaves the file is recorded, in order. The store is reached only
  through these calls, so the record is what an observer of the store and of the other
  collaborators sees.\<close>

datatype call =
    ListFolder_call Folder
  | DeleteObjects_call Folder "string list"
  | FetchStreamSentinel_call internal_Backup
  | GetTarNames_call internal_Backup
  | DisableSizeTracking_call
  | Upload_call string Reader
  | PushStreamToDestination_call Reader string
  | PushStream_call Reader
  | ReaderFrom_ReadFrom_call Reader
  | Finalize_call
  | Meta_call
  | Wait_call
  | TimeNowCrossPlatformLocal_call
  | GetSentinelUserData_call
  | UploadSentinel_call Backup string

text \<open>The collaborators (store folder, uploader provider, metadata provider, completion
  signal, clock, the packages \<open>models\<close>, \<open>internal\<close> and \<open>utility\<close>) are not among the
  sources. Each is a parameter: what it answers, given the calls made so far and its
  arguments. The functions without a call record are the pure ones.\<close>

record env =
  ListFolder :: "call list \<Rightarrow> Folder \<Rightarrow> error + Object list"
  DeleteObjects :: "call list \<Rightarrow> Folder \<Rightarrow> string list \<Rightarrow> error option"
  FetchStreamSentinel :: "call list \<Rightarrow> internal_Backup \<Rightarrow> error + Backup"
  GetTarNames :: "call list \<Rightarrow> internal_Backup \<Rightarrow> error + string list"
  GetStopSentinelPath :: "internal_Backup \<Rightarrow> string"
  Compression :: Compressor
  Upload :: "call list \<Rightarrow> string \<Rightarrow> Reader \<Rightarrow> error option"
  PushStreamToDestination :: "call list \<Rightarrow> Reader \<Rightarrow> string \<Rightarrow> error option"
  PushStream :: "call list \<Rightarrow> Reader \<Rightarrow> error + string"
  ReaderFrom_ReadFrom :: "call list \<Rightarrow> Reader \<Rightarrow> error option"
  Finalize :: "call list \<Rightarrow> error option"
  Meta :: "call list \<Rightarrow> string"
  Wait :: "call list \<Rightarrow> error option"
  TimeNowCrossPlatformLocal :: "call list \<Rightarrow> Time"
  GetSentinelUserData :: "call list \<Rightarrow> string"
  UploadSentinel :: "call list \<Rightarrow> Backup \<Rightarrow> string \<Rightarrow> error option"
  ConfigureCrypter :: Crypter
  CompressAndEncrypt :: "Reader \<Rightarrow> Compressor \<Rightarrow> Crypter \<Rightarrow> Reader"
  ArchFromFilename :: "string \<Rightarrow> error + Archive"
  NewArchive :: "Timestamp \<Rightarrow> Timestamp \<Rightarrow> string \<Rightarrow> ArchiveType \<Rightarrow> error + Archive"
  Filename :: "Archive \<Rightarrow> string"

text \<open>Making a call: ask the collaborator, then record the call.\<close>

definition do_ListFolder :: "env \<Rightarrow> Folder \<Rightarrow> call list \<Rightarrow> (error + Object list) \<times> call list" where
  "do_ListFolder E f h = (ListFolder E h f, h @ [ListFolder_call f])"

definition do_DeleteObjects :: "env \<Rightarrow> Folder \<Rightarrow> string list \<Rightarrow> call list \<Rightarrow> error option \<times> call list" where
  "do_DeleteObjects E f keys h = (DeleteObjects E h f keys, h @ [DeleteObjects_call f keys])"

definition do_FetchStreamSentinel :: "env \<Rightarrow> internal_Backup \<Rightarrow> call list \<Rightarrow> (error + Backup) \<times> call list" where
  "do_FetchStreamSentinel E b h = (FetchStreamSentinel E h b, h @ [FetchStreamSentinel_call b])"

definition do_GetTarNames :: "env \<Rightarrow> internal_Backup \<Rightarrow> call list \<Rightarrow> (error + string list) \<times> call list" where
  "do_GetTarNames E b h = (GetTarNames E h b, h @ [GetTarNames_call b])"

definition do_Upload :: "env \<Rightarrow> string \<Rightarrow> Reader \<Rightarrow> call list \<Rightarrow> error option \<times> call list" where
  "do_Upload E path content h = (Upload E h path content, h @ [Upload_call path content])"

definition do_PushStreamToDestination :: "env \<Rightarrow> Reader \<Rightarrow> string \<Rightarrow> call list \<Rightarrow> error option \<times> call list" where
  "do_PushStreamToDestination E stream dst h =
     (PushStreamToDestination E h stream dst, h @ [PushStreamToDestination_call stream dst])"

definition do_PushStream :: "env \<Rightarrow> Reader \<Rightarrow> call list \<Rightarrow> (error + string) \<times> call list" where
  "do_PushStream E stream h = (PushStream E h stream, h @ [PushStream_call stream])"

definition do_ReaderFrom_ReadFrom :: "env \<Rightarrow> Reader \<Rightarrow> call list \<Rightarrow> error option \<times> call list" where
  "do_ReaderFrom_ReadFrom E r h = (ReaderFrom_ReadFrom E h r, h @ [ReaderFrom_ReadFrom_call r])"

definition do_Finalize :: "env \<Rightarrow> call list \<Rightarrow> error option \<times> call list" where
  "do_Finalize E h = (Finalize E h, h @ [Finalize_call])"

definition do_Meta :: "env \<Rightarrow> call list \<Rightarrow> string \<times> call list" where
  "do_Meta E h = (Meta E h, h @ [Meta_call])"

definition do_Wait :: "env \<Rightarrow> call list \<Rightarrow> error option \<times> call list" where
  "do_Wait E h = (Wait E h, h @ [Wait_call])"

definition do_TimeNowCrossPlatformLocal :: "env \<Rightarrow> call list \<Rightarrow> Time \<times> call list" where
  "do_TimeNowCrossPlatformLocal E h =
     (TimeNowCrossPlatformLocal E h, h @ [TimeNowCrossPlatformLocal_call])"

definition do_GetSentinelUserData :: "env \<Rightarrow> call list \<Rightarrow> string \<times> call list" where
  "do_GetSentinelUserData E h = (GetSentinelUserData E h, h @ [GetSentinelUserData_call])"

definition do_UploadSentinel :: "env \<Rightarrow> Backup \<Rightarrow> string \<Rightarrow> call list \<Rightarrow> error option \<times> call list" where
  "do_UploadSentinel E sentinel name h =
     (UploadSentinel E h sentinel name, h @ [UploadSentinel_call sentinel name])"


section \<open>sort.Slice\<close>

text \<open>Go's \<open>sort.Slice(xs, less)\<close> orders a slice by \<open>less\<close> and promises no stability.
  It is library code; the model is the insertion sort the library runs on short slices
  (\<open>for i: for j := i; j > 0 && less(xs[j], xs[j-1]); j-- swap\<close>). \<open>sift\<close> moves the new
  element down the already ordered prefix, which is held last element first. On longer
  slices the library may leave equal elements in another order than this one; the
  theorems below use only that the result is a permutation ordered by \<open>less\<close>.\<close>

fun sift :: "('a \<Rightarrow> 'a \<Rightarrow> bool) \<Rightarrow> 'a \<Rightarrow> 'a list \<Rightarrow> 'a list" where
  "sift lt x [] = [x]"
| "sift lt x (y # pre) = (if lt x y then y # sift lt x pre else x # y # pre)"

definition sort_Slice :: "('a \<Rightarrow> 'a \<Rightarrow> bool) \<Rightarrow> 'a list \<Rightarrow> 'a list" where
  "sort_Slice lt xs = rev (foldl (\<lambda>pre x. sift lt x pre) [] xs)"

section \<open>The downloader (loader.go)\<close>

record StorageDownloader =
  sd_oplogsFolder :: Folder
  sd_backupsFolder :: Folder

definition quote :: string where
  "quote = [CHR 0x27]"

definition BackupMeta ::
  "env \<Rightarrow> StorageDownloader \<Rightarrow> string \<Rightarrow> call list \<Rightarrow> (Backup \<times> error option) \<times> call list" where
  "BackupMeta E sd name h =
     (let backup = NewBackup (sd_backupsFolder sd) name
      in case do_FetchStreamSentinel E backup h of
           (Inl err, h1) \<Rightarrow>
             ((zero_Backup, Some (fmt_Errorf_w ''can not fetch stream sentinel: '' err [])), h1)
         | (Inr sentinel, h1) \<Rightarrow>
             ((if BackupName sentinel = [] then sentinel\<lparr>BackupName := name\<rparr> else sentinel,
               None), h1))"

text \<open>The loop of \<open>LoadBackups\<close>: \<open>Inl\<close> is the early return, \<open>Inr\<close> the slice built.\<close>

fun LoadBackups_loop ::
  "env \<Rightarrow> StorageDownloader \<Rightarrow> string list \<Rightarrow> Backup list \<Rightarrow> call list
     \<Rightarrow> (error + Backup list) \<times> call list" where
  "LoadBackups_loop E sd [] backups h = (Inr backups, h)"
| "LoadBackups_loop E sd (name # names) backups h =
     (case BackupMeta E sd name h of
        ((backup, Some err), h1) \<Rightarrow> (Inl err, h1)
      | ((backup, None), h1) \<Rightarrow> LoadBackups_loop E sd names (backups @ [backup]) h1)"

text \<open>The two results of the Go function are a pair; a nil slice is \<open>None\<close>.\<close>

definition LoadBackups ::
  "env \<Rightarrow> StorageDownloader \<Rightarrow> string list \<Rightarrow> call list
     \<Rightarrow> (Backup list option \<times> error option) \<times> call list" where
  "LoadBackups E sd names h =
     (case LoadBackups_loop E sd names [] h of
        (Inl err, h1) \<Rightarrow> ((None, Some err), h1)
      | (Inr backups, h1) \<Rightarrow>
          ((Some (sort_Slice (\<lambda>bi bj. After (FinishLocalTime bi) (FinishLocalTime bj)) backups),
            None), h1))"

fun ListOplogArchives_loop :: "env \<Rightarrow> Object list \<Rightarrow> Archive list \<Rightarrow> error + Archive list" where
  "ListOplogArchives_loop E [] archives = Inr archives"
| "ListOplogArchives_loop E (key # objects) archives =
     (let archName = Name key
      in case ArchFromFilename E archName of
           Inl err \<Rightarrow>
             Inl (fmt_Errorf_w
                    (''can not convert retrieve timestamps since oplog archive Ext ''
                       @ quote @ archName @ quote @ '': '') err [])
         | Inr arch \<Rightarrow> ListOplogArchives_loop E objects (archives @ [arch]))"

definition ListOplogArchives ::
  "env \<Rightarrow> StorageDownloader \<Rightarrow> call list \<Rightarrow> (Archive list option \<times> error option) \<times> call list" where
  "ListOplogArchives E sd h =
     (case do_ListFolder E (sd_oplogsFolder sd) h of
        (Inl err, h1) \<Rightarrow>
          ((None, Some (fmt_Errorf_w ''can not list oplog archives folder: '' err [])), h1)
      | (Inr objects, h1) \<Rightarrow>
          (case ListOplogArchives_loop E objects [] of
             Inl err \<Rightarrow> ((None, Some err), h1)
           | Inr archives \<Rightarrow> ((Some archives, None), h1)))"

fun LastKnownArchiveTS_loop :: "env \<Rightarrow> Object list \<Rightarrow> Timestamp \<Rightarrow> error + Timestamp" where
  "LastKnownArchiveTS_loop E [] maxTS = Inr maxTS"
| "LastKnownArchiveTS_loop E (key # keys) maxTS =
     (let filename = Name key
      in case ArchFromFilename E filename of
           Inl err \<Rightarrow>
             Inl (fmt_Errorf_w
                    (''can not build archive since filename '' @ quote @ filename @ quote @ '': '')
                    err [])
         | Inr arch \<Rightarrow> LastKnownArchiveTS_loop E keys (MaxTS maxTS (End arch)))"

definition LastKnownArchiveTS ::
  "env \<Rightarrow> StorageDownloader \<Rightarrow> call list \<Rightarrow> (Timestamp \<times> error option) \<times> call list" where
  "LastKnownArchiveTS E sd h =
     (let maxTS = zero_Timestamp
      in case do_ListFolder E (sd_oplogsFolder sd) h of
           (Inl err, h1) \<Rightarrow>
             ((zero_Timestamp,
               Some (fmt_Errorf_w ''can not fetch keys since storage folder: '' err '' '')), h1)
         | (Inr keys, h1) \<Rightarrow>
             (case LastKnownArchiveTS_loop E keys maxTS of
                Inl err \<Rightarrow> ((zero_Timestamp, Some err), h1)
              | Inr ts \<Rightarrow> ((ts, None), h1)))"

section \<open>The discard uploader (loader.go)\<close>

text \<open>\<open>d_readerFrom\<close> says whether the \<open>io.ReaderFrom\<close> is non-nil; its \<open>ReadFrom\<close> is
  the environment's.\<close>

record DiscardUploader =
  d_compressor :: "Compressor option"
  d_readerFrom :: bool

definition DiscardUploader_UploadOplogArchive ::
  "env \<Rightarrow> DiscardUploader \<Rightarrow> Reader \<Rightarrow> Timestamp \<Rightarrow> Timestamp \<Rightarrow> call list
     \<Rightarrow> error option \<times> call list" where
  "DiscardUploader_UploadOplogArchive E d archReader firstTS lastTS h =
     (let archReader1 =
            (case d_compressor d of
               Some c \<Rightarrow> CompressAndEncrypt E archReader c (ConfigureCrypter E)
             | None \<Rightarrow> archReader)
      in if d_readerFrom d
         then (case do_ReaderFrom_ReadFrom E archReader1 h of
                 (Some err, h1) \<Rightarrow> (Some err, h1)
               | (None, h1) \<Rightarrow> (None, h1))
         else (None, h))"

definition DiscardUploader_UploadGapArchive ::
  "env \<Rightarrow> DiscardUploader \<Rightarrow> error option \<Rightarrow> Timestamp \<Rightarrow> Timestamp \<Rightarrow> call list
     \<Rightarrow> error option \<times> call list" where
  "DiscardUploader_UploadGapArchive E d err firstTS lastTS h = (None, h)"

definition DiscardUploader_UploadBackup ::
  "env \<Rightarrow> DiscardUploader \<Rightarrow> Reader \<Rightarrow> call list \<Rightarrow> error option outcome \<times> call list" where
  "DiscardUploader_UploadBackup E d stream h = (Panic ''implement me'', h)"

section \<open>The store-backed uploader (loader.go)\<close>

text \<open>The embedded \<open>UploaderProvider\<close> is the environment's \<open>Compression\<close>, \<open>Upload\<close>,
  \<open>PushStream\<close> and \<open>PushStreamToDestination\<close>; the struct keeps the crypter and the
  reusable buffer.\<close>

record StorageUploader =
  su_crypter :: Crypter
  su_buf :: string

definition NewStorageUploader :: "env \<Rightarrow> call list \<Rightarrow> StorageUploader \<times> call list" where
  "NewStorageUploader E h =
     (\<lparr>su_crypter = ConfigureCrypter E, su_buf = []\<rparr>, h @ [DisableSizeTracking_call])"

text \<open>The deferred \<open>su.buf.Reset()\<close> is registered after \<open>ReadFrom\<close>: it runs on both
  returns that follow it, and not on the return before it.\<close>

definition StorageUploader_UploadOplogArchive ::
  "env \<Rightarrow> StorageUploader \<Rightarrow> Reader \<Rightarrow> Timestamp \<Rightarrow> Timestamp \<Rightarrow> call list
     \<Rightarrow> error option \<times> StorageUploader \<times> call list" where
  "StorageUploader_UploadOplogArchive E su stream firstTS lastTS h =
     (case NewArchive E firstTS lastTS (FileExtension (Compression E)) ArchiveTypeOplog of
        Inl err \<Rightarrow> (Some (fmt_Errorf_w ''can not build archive: '' err []), su, h)
      | Inr arch \<Rightarrow>
          (case Buffer_ReadFrom (su_buf su)
                  (CompressAndEncrypt E stream (Compression E) (su_crypter su)) of
             (b, Some err) \<Rightarrow> (Some err, su\<lparr>su_buf := Buffer_Reset b\<rparr>, h)
           | (b, None) \<Rightarrow>
               (case do_Upload E (Filename E arch) (bytes_NewReader b) h of
                  (r, h1) \<Rightarrow> (r, su\<lparr>su_buf := Buffer_Reset b\<rparr>, h1))))"


text \<open>\<open>cmd\<close> and \<open>metaProvider\<close> are the environment's \<open>Wait\<close>, \<open>Finalize\<close> and \<open>Meta\<close>.
  The sentinel literal leaves \<open>BackupName\<close> at its zero value and evaluates its fields in
  the order written.\<close>

definition StorageUploader_UploadBackup ::
  "env \<Rightarrow> StorageUploader \<Rightarrow> Reader \<Rightarrow> call list \<Rightarrow> error option \<times> call list" where
  "StorageUploader_UploadBackup E su stream h =
     (case do_TimeNowCrossPlatformLocal E h of
        (timeStart, h1) \<Rightarrow>
     (case do_PushStream E stream h1 of
        (Inl err, h2) \<Rightarrow> (Some err, h2)
      | (Inr backupName, h2) \<Rightarrow>
     (case do_Finalize E h2 of
        (Some err, h3) \<Rightarrow> (Some err, h3)
      | (None, h3) \<Rightarrow>
     (case do_Wait E h3 of
        (Some err, h4) \<Rightarrow> (Some err, h4)
      | (None, h4) \<Rightarrow>
     (case do_TimeNowCrossPlatformLocal E h4 of
        (timeFinish, h5) \<Rightarrow>
     (case do_GetSentinelUserData E h5 of
        (userData, h6) \<Rightarrow>
     (case do_Meta E h6 of
        (meta, h7) \<Rightarrow>
          do_UploadSentinel E
            \<lparr>BackupName = [], StartLocalTime = timeStart, FinishLocalTime = timeFinish,
             UserData = userData, MongoMeta = meta\<rparr>
            backupName h7)))))))"

section \<open>The purger (loader.go)\<close>

record StoragePurger =
  sp_oplogsFolder :: Folder
  sp_backupsFolder :: Folder

fun DeleteBackups_loop ::
  "env \<Rightarrow> StoragePurger \<Rightarrow> Backup list \<Rightarrow> string list \<Rightarrow> call list
     \<Rightarrow> (error + string list) \<times> call list" where
  "DeleteBackups_loop E sp [] keys h = (Inr keys, h)"
| "DeleteBackups_loop E sp (backup # backups) keys h =
     (let b = NewBackup (sp_backupsFolder sp) (BackupName backup)
      in case do_GetTarNames E b h of
           (Inl err, h1) \<Rightarrow> (Inl err, h1)
         | (Inr dataKeys, h1) \<Rightarrow>
             DeleteBackups_loop E sp backups ((keys @ dataKeys) @ [GetStopSentinelPath E b]) h1)"

definition DeleteBackups ::
  "env \<Rightarrow> StoragePurger \<Rightarrow> Backup list \<Rightarrow> call list \<Rightarrow> error option \<times> call list" where
  "DeleteBackups E sp backups h =
     (case DeleteBackups_loop E sp backups [] h of
        (Inl err, h1) \<Rightarrow> (Some err, h1)
      | (Inr keys, h1) \<Rightarrow>
          (case do_DeleteObjects E (sp_backupsFolder sp) keys h1 of
             (Some err, h2) \<Rightarrow> (Some err, h2)
           | (None, h2) \<Rightarrow> (None, h2)))"

section \<open>The file-restore dispatcher (DefaultFileUnwrapper)\<close>

record BackupFileUnwrapperOptions =
  isIncremented :: bool
  isPageFile :: bool

datatype os_File = os_File (File_Name: string)

datatype tar_Header = tar_Header (Header_Name: string)

datatype ReadWriterAt = ReadWriterAt nat

datatype unwrap_call =
    NewReadWriterAtFrom_call os_File
  | CreateFileFromIncrement_call Reader ReadWriterAt
  | writeLocalFile_call Reader tar_Header os_File
  | WritePagesFromIncrement_call Reader ReadWriterAt bool
  | RestoreMissingPages_call Reader ReadWriterAt

text \<open>The increment algorithms and the file writer are not among the sources; each is a
  parameter answering from the calls made so far and its arguments.\<close>

record unwrap_env =
  NewReadWriterAtFrom :: "unwrap_call list \<Rightarrow> os_File \<Rightarrow> error + ReadWriterAt"
  CreateFileFromIncrement :: "unwrap_call list \<Rightarrow> Reader \<Rightarrow> ReadWriterAt \<Rightarrow> error option"
  writeLocalFile :: "unwrap_call list \<Rightarrow> Reader \<Rightarrow> tar_Header \<Rightarrow> os_File \<Rightarrow> error option"
  WritePagesFromIncrement :: "unwrap_call list \<Rightarrow> Reader \<Rightarrow> ReadWriterAt \<Rightarrow> bool \<Rightarrow> error option"
  RestoreMissingPages :: "unwrap_call list \<Rightarrow> Reader \<Rightarrow> ReadWriterAt \<Rightarrow> error option"

definition do_NewReadWriterAtFrom ::
  "unwrap_env \<Rightarrow> os_File \<Rightarrow> unwrap_call list \<Rightarrow> (error + ReadWriterAt) \<times> unwrap_call list" where
  "do_NewReadWriterAtFrom U file h = (NewReadWriterAtFrom U h file, h @ [NewReadWriterAtFrom_call file])"

definition do_CreateFileFromIncrement ::
  "unwrap_env \<Rightarrow> Reader \<Rightarrow> ReadWriterAt \<Rightarrow> unwrap_call list \<Rightarrow> error option \<times> unwrap_call list" where
  "do_CreateFileFromIncrement U reader target h =
     (CreateFileFromIncrement U h reader target, h @ [CreateFileFromIncrement_call reader target])"

definition do_writeLocalFile ::
  "unwrap_env \<Rightarrow> Reader \<Rightarrow> tar_Header \<Rightarrow> os_File \<Rightarrow> unwrap_call list
     \<Rightarrow> error option \<times> unwrap_call list" where
  "do_writeLocalFile U reader header file h =
     (writeLocalFile U h reader header file, h @ [writeLocalFile_call reader header file])"

definition do_WritePagesFromIncrement ::
  "unwrap_env \<Rightarrow> Reader \<Rightarrow> ReadWriterAt \<Rightarrow> bool \<Rightarrow> unwrap_call list
     \<Rightarrow> error option \<times> unwrap_call list" where
  "do_WritePagesFromIncrement U reader target overwrite h =
     (WritePagesFromIncrement U h reader target overwrite,
      h @ [WritePagesFromIncrement_call reader target overwrite])"

definition do_RestoreMissingPages ::
  "unwrap_env \<Rightarrow> Reader \<Rightarrow> ReadWriterAt \<Rightarrow> unwrap_call list \<Rightarrow> error option \<times> unwrap_call list" where
  "do_RestoreMissingPages U reader target h =
     (RestoreMissingPages U h reader target, h @ [RestoreMissingPages_call reader target])"

record DefaultFileUnwrapper =
  options :: BackupFileUnwrapperOptions

definition UnwrapNewFile ::
  "unwrap_env \<Rightarrow> DefaultFileUnwrapper \<Rightarrow> Reader \<Rightarrow> tar_Header \<Rightarrow> os_File \<Rightarrow> unwrap_call list
     \<Rightarrow> error option \<times> unwrap_call list" where
  "UnwrapNewFile U u reader header file h =
     (if isIncremented (options u)
      then (case do_NewReadWriterAtFrom U file h of
              (Inl err, h1) \<Rightarrow> (Some err, h1)
            | (Inr targetReadWriterAt, h1) \<Rightarrow>
                (case do_CreateFileFromIncrement U reader targetReadWriterAt h1 of
                   (err, h2) \<Rightarrow>
                     (errors_Wrapf err
                        (''Interpret: failed to create file from increment ''
                           @ quote @ File_Name file @ quote), h2)))
      else do_writeLocalFile U reader header file h)"

definition UnwrapExistingFile ::
  "unwrap_env \<Rightarrow> DefaultFileUnwrapper \<Rightarrow> Reader \<Rightarrow> tar_Header \<Rightarrow> os_File \<Rightarrow> unwrap_call list
     \<Rightarrow> error option \<times> unwrap_call list" where
  "UnwrapExistingFile U u reader header file h =
     (case do_NewReadWriterAtFrom U file h of
        (Inl err, h1) \<Rightarrow> (Some err, h1)
      | (Inr targetReadWriterAt, h1) \<Rightarrow>
          (if isIncremented (options u)
           then (case do_WritePagesFromIncrement U reader targetReadWriterAt False h1 of
                   (err, h2) \<Rightarrow>
                     (errors_Wrapf err
                        (''Interpret: failed to write increment to file ''
                           @ quote @ File_Name file @ quote), h2))
           else if isPageFile (options u)
           then (case do_RestoreMissingPages U reader targetReadWriterAt h1 of
                   (err, h2) \<Rightarrow>
                     (errors_Wrapf err
                        (''Interpret: failed to restore pages for file ''
                           @ quote @ File_Name file @ quote), h2))
           else (None, h1)))"


section \<open>What the claims speak of\<close>

text \<open>Resolving each name in turn with \<open>BackupMeta\<close>: the results, in the order of the
  names, each asked after the calls of the ones before it.\<close>

fun BackupMeta_each ::
  "env \<Rightarrow> StorageDownloader \<Rightarrow> string list \<Rightarrow> call list \<Rightarrow> (Backup \<times> error option) list" where
  "BackupMeta_each E sd [] h = []"
| "BackupMeta_each E sd (name # names) h =
     (case BackupMeta E sd name h of (r, h1) \<Rightarrow> r # BackupMeta_each E sd names h1)"

text \<open>Whether a listed key decodes to an archive.\<close>

definition decodes :: "env \<Rightarrow> Object \<Rightarrow> bool" where
  "decodes E key = (case ArchFromFilename E (Name key) of Inl err \<Rightarrow> False | Inr arch \<Rightarrow> True)"

text \<open>The archive a key decodes to (the zero archive where it does not decode).\<close>

definition decoded :: "env \<Rightarrow> Object \<Rightarrow> Archive" where
  "decoded E key =
     (case ArchFromFilename E (Name key) of
        Inl err \<Rightarrow> \<lparr>Start = zero_Timestamp, End = zero_Timestamp, Ext = [], Type = ArchiveTypeOplog\<rparr>
      | Inr arch \<Rightarrow> arch)"

text \<open>\<open>a\<close> is not later than \<open>b\<close> in the timestamp order.\<close>

definition LessEqTS :: "Timestamp \<Rightarrow> Timestamp \<Rightarrow> bool" where
  "LessEqTS a b = (\<not> LessTS b a)"

text \<open>The data-part listings of the backups, each asked after the ones before it.\<close>

fun GetTarNames_each ::
  "env \<Rightarrow> StoragePurger \<Rightarrow> Backup list \<Rightarrow> call list \<Rightarrow> (error + string list) list" where
  "GetTarNames_each E sp [] h = []"
| "GetTarNames_each E sp (backup # backups) h =
     (case do_GetTarNames E (NewBackup (sp_backupsFolder sp) (BackupName backup)) h of
        (r, h1) \<Rightarrow> r # GetTarNames_each E sp backups h1)"

text \<open>The keys one backup owns: its data parts, then its sentinel.\<close>

definition owned_keys :: "env \<Rightarrow> StoragePurger \<Rightarrow> Backup \<Rightarrow> string list \<Rightarrow> string list" where
  "owned_keys E sp backup dataKeys =
     dataKeys @ [GetStopSentinelPath E (NewBackup (sp_backupsFolder sp) (BackupName backup))]"

text \<open>A run of oplog uploads on one uploader, one after the other.\<close>

fun UploadOplogArchive_run ::
  "env \<Rightarrow> StorageUploader \<Rightarrow> (Reader \<times> Timestamp \<times> Timestamp) list \<Rightarrow> call list
     \<Rightarrow> StorageUploader \<times> call list" where
  "UploadOplogArchive_run E su [] h = (su, h)"
| "UploadOplogArchive_run E su ((stream, firstTS, lastTS) # rest) h =
     (case StorageUploader_UploadOplogArchive E su stream firstTS lastTS h of
        (r, su1, h1) \<Rightarrow> UploadOplogArchive_run E su1 rest h1)"

text \<open>Recognising the calls the claims single out.\<close>

definition is_UploadSentinel_call :: "call \<Rightarrow> bool" where
  "is_UploadSentinel_call c = (case c of UploadSentinel_call sentinel name \<Rightarrow> True | _ \<Rightarrow> False)"

definition is_DeleteObjects_call :: "call \<Rightarrow> bool" where
  "is_DeleteObjects_call c = (case c of DeleteObjects_call f keys \<Rightarrow> True | _ \<Rightarrow> False)"

definition is_RestoreMissingPages_call :: "unwrap_call \<Rightarrow> bool" where
  "is_RestoreMissingPages_call c = (case c of RestoreMissingPages_call r t \<Rightarrow> True | _ \<Rightarrow> False)"

section \<open>Collaborators for the worked examples\<close>

definition ts :: "nat \<Rightarrow> Timestamp" where
  "ts n = \<lparr>TS = n, Inc = 0\<rparr>"

definition example_ArchFromFilename :: "string \<Rightarrow> error + Archive" where
  "example_ArchFromFilename name =
     (if name = ''a'' then Inr \<lparr>Start = ts 100, End = ts 200, Ext = ''br'', Type = ArchiveTypeOplog\<rparr>
      else if name = ''b'' then Inr \<lparr>Start = ts 200, End = ts 350, Ext = ''br'', Type = ArchiveTypeOplog\<rparr>
      else if name = ''g'' then Inr \<lparr>Start = ts 350, End = ts 400, Ext = ''br'', Type = ArchiveTypeGap\<rparr>
      else Inl (Error ''bad archive name''))"

definition example_sentinel :: "string \<Rightarrow> error + Backup" where
  "example_sentinel name =
     (if name = ''b1'' then Inr \<lparr>BackupName = [], StartLocalTime = 10, FinishLocalTime = 20,
                                UserData = [], MongoMeta = []\<rparr>
      else if name = ''b2'' then Inr \<lparr>BackupName = ''b2'', StartLocalTime = 30, FinishLocalTime = 40,
                                UserData = [], MongoMeta = []\<rparr>
      else Inl (Error ''no such object''))"

definition example_tar_names :: "string \<Rightarrow> error + string list" where
  "example_tar_names name =
     (if name = ''b1'' then Inr [''b1/p1'', ''b1/p2'']
      else if name = ''b2'' then Inr [''b2/p1'']
      else Inl (Error ''can not list''))"

definition example_env :: env where
  "example_env =
     \<lparr>ListFolder = (\<lambda>h f. if f = Folder ''oplog''
                            then Inr [\<lparr>Name = ''b'', LastModified = 2\<rparr>,
                                      \<lparr>Name = ''g'', LastModified = 3\<rparr>,
                                      \<lparr>Name = ''a'', LastModified = 1\<rparr>]
                            else Inr []),
      DeleteObjects = (\<lambda>h f keys. None),
      FetchStreamSentinel = (\<lambda>h b. example_sentinel (Backup_Name b)),
      GetTarNames = (\<lambda>h b. example_tar_names (Backup_Name b)),
      GetStopSentinelPath = (\<lambda>b. Backup_Name b @ ''.json''),
      Compression = Compressor ''br'',
      Upload = (\<lambda>h path content. None),
      PushStreamToDestination = (\<lambda>h stream dst. None),
      PushStream = (\<lambda>h stream. Inr ''s1''),
      ReaderFrom_ReadFrom = (\<lambda>h r. None),
      Finalize = (\<lambda>h. None),
      Meta = (\<lambda>h. ''m''),
      Wait = (\<lambda>h. None),
      TimeNowCrossPlatformLocal = (\<lambda>h. int (length h)),
      GetSentinelUserData = (\<lambda>h. ''u''),
      UploadSentinel = (\<lambda>h sentinel name. None),
      ConfigureCrypter = Crypter [],
      CompressAndEncrypt = (\<lambda>r c k. r),
      ArchFromFilename = example_ArchFromFilename,
      NewArchive = (\<lambda>s e x t. Inr \<lparr>Start = s, End = e, Ext = x, Type = t\<rparr>),
      Filename = (\<lambda>a. (case Type a of ArchiveTypeOplog \<Rightarrow> ''o.'' | ArchiveTypeGap \<Rightarrow> ''g.'') @ Ext a)\<rparr>"

definition example_sd :: StorageDownloader where
  "example_sd = \<lparr>sd_oplogsFolder = Folder ''oplog'', sd_backupsFolder = Folder ''base''\<rparr>"

definition example_sp :: StoragePurger where
  "example_sp = \<lparr>sp_oplogsFolder = Folder ''oplog'', sp_backupsFolder = Folder ''base''\<rparr>"

definition example_su :: StorageUploader where
  "example_su = \<lparr>su_crypter = Crypter [], su_buf = []\<rparr>"

definition example_unwrap_env :: unwrap_env where
  "example_unwrap_env =
     \<lparr>NewReadWriterAtFrom = (\<lambda>h file. Inr (ReadWriterAt 7)),
      CreateFileFromIncrement = (\<lambda>h reader target. None),
      writeLocalFile = (\<lambda>h reader header file. None),
      WritePagesFromIncrement = (\<lambda>h reader target overwrite. None),
      RestoreMissingPages = (\<lambda>h reader target. None)\<rparr>"

definition unwrapper :: "bool \<Rightarrow> bool \<Rightarrow> DefaultFileUnwrapper" where
  "unwrapper incremented pageFile =
     \<lparr>options = \<lparr>isIncremented = incremented, isPageFile = pageFile\<rparr>\<rparr>"


text \<open>The same collaborators with one of them failing.\<close>

definition wait_fails_env :: env where
  "wait_fails_env = example_env\<lparr>Wait := (\<lambda>h. Some (Error ''exit status 1''))\<rparr>"


definition strict_listing_env :: env where
  "strict_listing_env =
     example_env\<lparr>ListFolder := (\<lambda>h f. Inr [\<lparr>Name = ''a'', LastModified = 1\<rparr>,
                                             \<lparr>Name = ''zz'', LastModified = 2\<rparr>])\<rparr>"

definition stat_fails_unwrap_env :: unwrap_env where
  "stat_fails_unwrap_env =
     example_unwrap_env\<lparr>NewReadWriterAtFrom := (\<lambda>h file. Inl (Error ''stat failed''))\<rparr>"

definition backup_named :: "string \<Rightarrow> Backup" where
  "backup_named name = zero_Backup\<lparr>BackupName := name\<rparr>"


section \<open>The collaborators' calls unfolded\<close>

lemmas do_defs = do_ListFolder_def do_DeleteObjects_def do_FetchStreamSentinel_def
  do_GetTarNames_def do_Upload_def do_PushStreamToDestination_def do_PushStream_def
  do_ReaderFrom_ReadFrom_def do_Finalize_def do_Meta_def do_Wait_def
  do_TimeNowCrossPlatformLocal_def do_GetSentinelUserData_def do_UploadSentinel_def

lemmas unwrap_do_defs = do_NewReadWriterAtFrom_def do_CreateFileFromIncrement_def
  do_writeLocalFile_def do_WritePagesFromIncrement_def do_RestoreMissingPages_def

section \<open>The discard uploader\<close>

text \<open>
  Claim C8. On the discard (dry-run) uploader a gap upload is a no-op that succeeds: for
  every error, pair of timestamps and call record, \<open>UploadGapArchive\<close> returns nil and
  makes no call at all. Its \<open>UploadBackup\<close> never returns: for every input it panics
  with "implement me", again without any call.
\<close>

theorem DiscardUploader_gap_noop_backup_panics:
  "DiscardUploader_UploadGapArchive E d err firstTS lastTS h = (None, h)
   \<and> DiscardUploader_UploadBackup E d stream h = (Panic ''implement me'', h)"
  by (simp add: DiscardUploader_UploadGapArchive_def DiscardUploader_UploadBackup_def)

section \<open>The order of a full-backup upload\<close>

text \<open>
  Claim C1. \<open>UploadBackup\<close> on the store-backed uploader makes its calls in one fixed
  order: the clock (start time), \<open>PushStream\<close>, \<open>Finalize\<close>, \<open>Wait\<close>, then the clock
  again, the user data, \<open>Meta\<close> and the sentinel upload. The first of \<open>PushStream\<close>,
  \<open>Finalize\<close> and \<open>Wait\<close> to fail ends the call with that error, and nothing after it
  is called. In particular, when \<open>Wait\<close> fails the result is its error, the calls made
  hold the \<open>PushStream\<close> of the data and no sentinel upload. When all three succeed
  the sentinel carries the start time read first and the finish time read after \<open>Wait\<close>,
  and the result is that of the sentinel upload.
\<close>

theorem UploadBackup_steps_in_order:
  "(PushStream E (h @ [TimeNowCrossPlatformLocal_call]) stream = Inl err \<longrightarrow>
      StorageUploader_UploadBackup E su stream h =
        (Some err, h @ [TimeNowCrossPlatformLocal_call, PushStream_call stream]))
   \<and> (PushStream E (h @ [TimeNowCrossPlatformLocal_call]) stream = Inr backupName
        \<and> Finalize E (h @ [TimeNowCrossPlatformLocal_call, PushStream_call stream]) = Some err \<longrightarrow>
      StorageUploader_UploadBackup E su stream h =
        (Some err, h @ [TimeNowCrossPlatformLocal_call, PushStream_call stream, Finalize_call]))
   \<and> (PushStream E (h @ [TimeNowCrossPlatformLocal_call]) stream = Inr backupName
        \<and> Finalize E (h @ [TimeNowCrossPlatformLocal_call, PushStream_call stream]) = None
        \<and> Wait E (h @ [TimeNowCrossPlatformLocal_call, PushStream_call stream, Finalize_call])
            = Some err \<longrightarrow>
      StorageUploader_UploadBackup E su stream h =
        (Some err,
         h @ [TimeNowCrossPlatformLocal_call, PushStream_call stream, Finalize_call, Wait_call])
      \<and> \<not> list_ex is_UploadSentinel_call
             (drop (length h) (snd (StorageUploader_UploadBackup E su stream h)))
      \<and> PushStream_call stream
           \<in> set (drop (length h) (snd (StorageUploader_UploadBackup E su stream h))))
   \<and> (PushStream E (h @ [TimeNowCrossPlatformLocal_call]) stream = Inr backupName
        \<and> Finalize E (h @ [TimeNowCrossPlatformLocal_call, PushStream_call stream]) = None
        \<and> Wait E (h @ [TimeNowCrossPlatformLocal_call, PushStream_call stream, Finalize_call])
            = None \<longrightarrow>
      StorageUploader_UploadBackup E su stream h =
        (UploadSentinel E
           (h @ [TimeNowCrossPlatformLocal_call, PushStream_call stream, Finalize_call, Wait_call,
                 TimeNowCrossPlatformLocal_call, GetSentinelUserData_call, Meta_call])
           \<lparr>BackupName = [],
            StartLocalTime = TimeNowCrossPlatformLocal E h,
            FinishLocalTime =
              TimeNowCrossPlatformLocal E
                (h @ [TimeNowCrossPlatformLocal_call, PushStream_call stream, Finalize_call,
                      Wait_call]),
            UserData =
              GetSentinelUserData E
                (h @ [TimeNowCrossPlatformLocal_call, PushStream_call stream, Finalize_call,
                      Wait_call, TimeNowCrossPlatformLocal_call]),
            MongoMeta =
              Meta E
                (h @ [TimeNowCrossPlatformLocal_call, PushStream_call stream, Finalize_call,
                      Wait_call, TimeNowCrossPlatformLocal_call, GetSentinelUserData_call])\<rparr>
           backupName,
         h @ [TimeNowCrossPlatformLocal_call, PushStream_call stream, Finalize_call, Wait_call,
              TimeNowCrossPlatformLocal_call, GetSentinelUserData_call, Meta_call,
              UploadSentinel_call
                \<lparr>BackupName = [],
                 StartLocalTime = TimeNowCrossPlatformLocal E h,
                 FinishLocalTime =
                   TimeNowCrossPlatformLocal E
                     (h @ [TimeNowCrossPlatformLocal_call, PushStream_call stream, Finalize_call,
                           Wait_call]),
                 UserData =
                   GetSentinelUserData E
                     (h @ [TimeNowCrossPlatformLocal_call, PushStream_call stream, Finalize_call,
                           Wait_call, TimeNowCrossPlatformLocal_call]),
                 MongoMeta =
                   Meta E
                     (h @ [TimeNowCrossPlatformLocal_call, PushStream_call stream, Finalize_call,
                           Wait_call, TimeNowCrossPlatformLocal_call, GetSentinelUserData_call])\<rparr>
                backupName]))"
  by (simp add: StorageUploader_UploadBackup_def do_defs is_UploadSentinel_call_def)

theorem UploadBackup_steps_in_order_witness:
  "StorageUploader_UploadBackup wait_fails_env example_su (Reader ''data'' None) [] =
     (Some (Error ''exit status 1''),
      [TimeNowCrossPlatformLocal_call, PushStream_call (Reader ''data'' None), Finalize_call,
       Wait_call])
   \<and> StorageUploader_UploadBackup example_env example_su (Reader ''data'' None) [] =
     (None,
      [TimeNowCrossPlatformLocal_call, PushStream_call (Reader ''data'' None), Finalize_call,
       Wait_call, TimeNowCrossPlatformLocal_call, GetSentinelUserData_call, Meta_call,
       UploadSentinel_call
         \<lparr>BackupName = [], StartLocalTime = 0, FinishLocalTime = 4, UserData = ''u'',
          MongoMeta = ''m''\<rparr> ''s1''])"
  using UploadBackup_steps_in_order [where E = wait_fails_env and h = "[]"
      and stream = "Reader ''data'' None" and backupName = "''s1''"
      and err = "Error ''exit status 1''" and su = example_su]
    UploadBackup_steps_in_order [where E = example_env and h = "[]"
      and stream = "Reader ''data'' None" and backupName = "''s1''" and su = example_su]
  by (simp add: wait_fails_env_def example_env_def)


section \<open>Gap archives\<close>




section \<open>The file-restore dispatcher\<close>

text \<open>
  Claim C6, as stated, has an existing plain file in non-incremental mode skipped with
  success. \<open>UnwrapExistingFile\<close> builds the random-access target before it looks at the
  two flags and returns that step's error: with a file whose target cannot be built,
  the plain non-incremental case returns the error, not success.
\<close>

theorem UnwrapExistingFile_skip_counterexample:
  "fst (UnwrapExistingFile stat_fails_unwrap_env (unwrapper False False) (Reader ''inc'' None)
         (tar_Header ''f'') (os_File ''f'') [])
     = Some (Error ''stat failed'')"
  by (simp add: UnwrapExistingFile_def unwrap_do_defs stat_fails_unwrap_env_def
      example_unwrap_env_def unwrapper_def)

text \<open>
  Claim C6, amended. The dispatcher routes by the five-case table, each row taken once
  the random-access target it builds is there: a new file in incremental mode is
  created from the increment stream on the target; a new file in non-incremental mode
  is handed to \<open>writeLocalFile\<close> (no target is built); for an existing file the target
  is built first, then incremental mode patches from the increment stream, a page file
  in non-incremental mode has its missing pages restored, and a plain file in
  non-incremental mode returns success with no further call. When the target cannot
  be built, \<open>UnwrapExistingFile\<close> (whatever the flags) and \<open>UnwrapNewFile\<close> in
  incremental mode return that error and call nothing else. Errors of the increment
  algorithms come back wrapped with the file's name.
\<close>

theorem Unwrap_dispatch_table:
  "(isIncremented (options u) \<and> NewReadWriterAtFrom U h fl = Inr target \<longrightarrow>
      UnwrapNewFile U u reader header fl h =
        (errors_Wrapf
           (CreateFileFromIncrement U (h @ [NewReadWriterAtFrom_call fl]) reader target)
           (''Interpret: failed to create file from increment '' @ quote @ File_Name fl @ quote),
         h @ [NewReadWriterAtFrom_call fl, CreateFileFromIncrement_call reader target]))
   \<and> (\<not> isIncremented (options u) \<longrightarrow>
      UnwrapNewFile U u reader header fl h =
        (writeLocalFile U h reader header fl, h @ [writeLocalFile_call reader header fl]))
   \<and> (isIncremented (options u) \<and> NewReadWriterAtFrom U h fl = Inr target \<longrightarrow>
      UnwrapExistingFile U u reader header fl h =
        (errors_Wrapf
           (WritePagesFromIncrement U (h @ [NewReadWriterAtFrom_call fl]) reader target False)
           (''Interpret: failed to write increment to file '' @ quote @ File_Name fl @ quote),
         h @ [NewReadWriterAtFrom_call fl, WritePagesFromIncrement_call reader target False]))
   \<and> (\<not> isIncremented (options u) \<and> isPageFile (options u)
        \<and> NewReadWriterAtFrom U h fl = Inr target \<longrightarrow>
      UnwrapExistingFile U u reader header fl h =
        (errors_Wrapf
           (RestoreMissingPages U (h @ [NewReadWriterAtFrom_call fl]) reader target)
           (''Interpret: failed to restore pages for file '' @ quote @ File_Name fl @ quote),
         h @ [NewReadWriterAtFrom_call fl, RestoreMissingPages_call reader target]))
   \<and> (\<not> isIncremented (options u) \<and> \<not> isPageFile (options u)
        \<and> NewReadWriterAtFrom U h fl = Inr target \<longrightarrow>
      UnwrapExistingFile U u reader header fl h = (None, h @ [NewReadWriterAtFrom_call fl]))
   \<and> (NewReadWriterAtFrom U h fl = Inl err \<longrightarrow>
      UnwrapExistingFile U u reader header fl h = (Some err, h @ [NewReadWriterAtFrom_call fl]))
   \<and> (isIncremented (options u) \<and> NewReadWriterAtFrom U h fl = Inl err \<longrightarrow>
      UnwrapNewFile U u reader header fl h = (Some err, h @ [NewReadWriterAtFrom_call fl]))"
  by (simp add: UnwrapNewFile_def UnwrapExistingFile_def unwrap_do_defs)

theorem Unwrap_dispatch_table_witness:
  "UnwrapNewFile example_unwrap_env (unwrapper True False) (Reader ''inc'' None)
       (tar_Header ''f'') (os_File ''f'') []
     = (None, [NewReadWriterAtFrom_call (os_File ''f''),
               CreateFileFromIncrement_call (Reader ''inc'' None) (ReadWriterAt 7)])
   \<and> UnwrapNewFile example_unwrap_env (unwrapper False True) (Reader ''inc'' None)
       (tar_Header ''f'') (os_File ''f'') []
     = (None, [writeLocalFile_call (Reader ''inc'' None) (tar_Header ''f'') (os_File ''f'')])
   \<and> UnwrapExistingFile example_unwrap_env (unwrapper True False) (Reader ''inc'' None)
       (tar_Header ''f'') (os_File ''f'') []
     = (None, [NewReadWriterAtFrom_call (os_File ''f''),
               WritePagesFromIncrement_call (Reader ''inc'' None) (ReadWriterAt 7) False])
   \<and> UnwrapExistingFile example_unwrap_env (unwrapper False True) (Reader ''inc'' None)
       (tar_Header ''f'') (os_File ''f'') []
     = (None, [NewReadWriterAtFrom_call (os_File ''f''),
               RestoreMissingPages_call (Reader ''inc'' None) (ReadWriterAt 7)])
   \<and> UnwrapExistingFile example_unwrap_env (unwrapper False False) (Reader ''inc'' None)
       (tar_Header ''f'') (os_File ''f'') []
     = (None, [NewReadWriterAtFrom_call (os_File ''f'')])
   \<and> UnwrapExistingFile stat_fails_unwrap_env (unwrapper True True) (Reader ''inc'' None)
       (tar_Header ''f'') (os_File ''f'') []
     = (Some (Error ''stat failed''), [NewReadWriterAtFrom_call (os_File ''f'')])"
  using
    Unwrap_dispatch_table [where U = example_unwrap_env and u = "unwrapper True False"
      and h = "[]" and fl = "os_File ''f''" and target = "ReadWriterAt 7"
      and reader = "Reader ''inc'' None" and header = "tar_Header ''f''"]
    Unwrap_dispatch_table [where U = example_unwrap_env and u = "unwrapper False True"
      and h = "[]" and fl = "os_File ''f''" and target = "ReadWriterAt 7"
      and reader = "Reader ''inc'' None" and header = "tar_Header ''f''"]
    Unwrap_dispatch_table [where U = example_unwrap_env and u = "unwrapper False False"
      and h = "[]" and fl = "os_File ''f''" and target = "ReadWriterAt 7"
      and reader = "Reader ''inc'' None" and header = "tar_Header ''f''"]
    Unwrap_dispatch_table [where U = stat_fails_unwrap_env and u = "unwrapper True True"
      and h = "[]" and fl = "os_File ''f''" and err = "Error ''stat failed''"
      and reader = "Reader ''inc'' None" and header = "tar_Header ''f''"]
  by (simp add: example_unwrap_env_def stat_fails_unwrap_env_def unwrapper_def errors_Wrapf_def)

text \<open>
  Claim C10, as stated, has every existing-file restore in incremental mode apply the
  increment-patch path. \<open>UnwrapExistingFile\<close> builds the random-access target before it
  reads the flags: when the target cannot be built, an incremental restore returns
  that error and no patch call is made.
\<close>

theorem UnwrapExistingFile_no_patch_counterexample:
  "UnwrapExistingFile stat_fails_unwrap_env (unwrapper True True) (Reader ''inc'' None)
       (tar_Header ''g'') (os_File ''g'') []
     = (Some (Error ''stat failed''), [NewReadWriterAtFrom_call (os_File ''g'')])"
  by (simp add: UnwrapExistingFile_def unwrap_do_defs stat_fails_unwrap_env_def
      example_unwrap_env_def unwrapper_def)

text \<open>
  Claim C10, amended. For an existing file in incremental mode the page-file flag
  changes nothing: result and calls are the same for either value of \<open>isPageFile\<close>, and
  no \<open>RestoreMissingPages\<close> call is made. The random-access target is built first.
  Once it is built the dispatcher applies the increment-patch path: the one further
  call is \<open>WritePagesFromIncrement(reader, target, false)\<close>, and the result is that
  call's, wrapped with the file's name when it is an error. When the target cannot be
  built, that error is returned and nothing else is called. Whenever a
  \<open>RestoreMissingPages\<close> call is made, \<open>isIncremented\<close> is false (and \<open>isPageFile\<close> is
  true).
\<close>

theorem UnwrapExistingFile_incremented_first:
  "(isIncremented (options u) \<longrightarrow>
      UnwrapExistingFile U (u\<lparr>options := (options u)\<lparr>isPageFile := pageFile\<rparr>\<rparr>) reader header fl h
        = UnwrapExistingFile U u reader header fl h
      \<and> \<not> list_ex is_RestoreMissingPages_call
             (drop (length h) (snd (UnwrapExistingFile U u reader header fl h)))
      \<and> (NewReadWriterAtFrom U h fl = Inr target \<longrightarrow>
           UnwrapExistingFile U u reader header fl h =
             (errors_Wrapf
                (WritePagesFromIncrement U (h @ [NewReadWriterAtFrom_call fl]) reader target False)
                (''Interpret: failed to write increment to file '' @ quote @ File_Name fl @ quote),
              h @ [NewReadWriterAtFrom_call fl, WritePagesFromIncrement_call reader target False]))
      \<and> (NewReadWriterAtFrom U h fl = Inl err \<longrightarrow>
           UnwrapExistingFile U u reader header fl h
             = (Some err, h @ [NewReadWriterAtFrom_call fl])))
   \<and> (list_ex is_RestoreMissingPages_call
         (drop (length h) (snd (UnwrapExistingFile U u reader header fl h))) \<longrightarrow>
       \<not> isIncremented (options u) \<and> isPageFile (options u))"
  by (auto simp add: UnwrapExistingFile_def unwrap_do_defs is_RestoreMissingPages_call_def
      split: sum.splits)

theorem UnwrapExistingFile_incremented_first_witness:
  "UnwrapExistingFile example_unwrap_env (unwrapper True True) (Reader ''inc'' None)
       (tar_Header ''f'') (os_File ''f'') []
     = (None, [NewReadWriterAtFrom_call (os_File ''f''),
               WritePagesFromIncrement_call (Reader ''inc'' None) (ReadWriterAt 7) False])
   \<and> UnwrapExistingFile example_unwrap_env (unwrapper True False) (Reader ''inc'' None)
       (tar_Header ''f'') (os_File ''f'') []
     = UnwrapExistingFile example_unwrap_env (unwrapper True True) (Reader ''inc'' None)
       (tar_Header ''f'') (os_File ''f'') []
   \<and> UnwrapExistingFile stat_fails_unwrap_env (unwrapper True False) (Reader ''inc'' None)
       (tar_Header ''f'') (os_File ''f'') []
     = (Some (Error ''stat failed''), [NewReadWriterAtFrom_call (os_File ''f'')])
   \<and> isPageFile (options (unwrapper False True))
   \<and> list_ex is_RestoreMissingPages_call
       (snd (UnwrapExistingFile example_unwrap_env (unwrapper False True) (Reader ''inc'' None)
         (tar_Header ''f'') (os_File ''f'') []))"
  using
    UnwrapExistingFile_incremented_first [where U = example_unwrap_env
      and u = "unwrapper True True" and pageFile = False
      and h = "[]" and fl = "os_File ''f''" and target = "ReadWriterAt 7"
      and reader = "Reader ''inc'' None" and header = "tar_Header ''f''"]
    UnwrapExistingFile_incremented_first [where U = stat_fails_unwrap_env
      and u = "unwrapper True False" and pageFile = True
      and h = "[]" and fl = "os_File ''f''" and err = "Error ''stat failed''"
      and reader = "Reader ''inc'' None" and header = "tar_Header ''f''"]
    UnwrapExistingFile_incremented_first [where U = example_unwrap_env
      and u = "unwrapper False True" and pageFile = False
      and h = "[]" and fl = "os_File ''f''" and target = "ReadWriterAt 7"
      and reader = "Reader ''inc'' None" and header = "tar_Header ''f''"]
  by (simp add: example_unwrap_env_def stat_fails_unwrap_env_def unwrapper_def errors_Wrapf_def
      UnwrapExistingFile_def unwrap_do_defs is_RestoreMissingPages_call_def)

section \<open>Listing the oplog archives\<close>

lemma ListOplogArchives_loop_ok:
  "list_all (decodes E) objects \<Longrightarrow>
   ListOplogArchives_loop E objects acc = Inr (acc @ map (decoded E) objects)"
  by (induction objects arbitrary: acc)
     (auto simp: decodes_def decoded_def split: sum.splits)

lemma ListOplogArchives_loop_fail:
  "list_all (decodes E) good \<Longrightarrow> ArchFromFilename E (Name key) = Inl err \<Longrightarrow>
   ListOplogArchives_loop E (good @ key # rest) acc =
     Inl (fmt_Errorf_w
            (''can not convert retrieve timestamps since oplog archive Ext ''
               @ quote @ Name key @ quote @ '': '') err [])"
  by (induction good arbitrary: acc) (auto simp: decodes_def split: sum.splits)

lemma first_undecodable:
  "\<not> list_all (decodes E) objects \<Longrightarrow>
   \<exists>good key rest err. objects = good @ key # rest \<and> list_all (decodes E) good
      \<and> ArchFromFilename E (Name key) = Inl err"
proof (induction objects)
  case Nil
  then show ?case by simp
next
  case (Cons obj objects)
  show ?case
  proof (cases "decodes E obj")
    case False
    then obtain err where "ArchFromFilename E (Name obj) = Inl err"
      by (auto simp: decodes_def split: sum.splits)
    then have "obj # objects = [] @ obj # objects \<and> list_all (decodes E) []
        \<and> ArchFromFilename E (Name obj) = Inl err" by simp
    then show ?thesis by blast
  next
    case True
    with Cons.prems have "\<not> list_all (decodes E) objects" by simp
    from Cons.IH [OF this] obtain good key rest err where
      "objects = good @ key # rest" "list_all (decodes E) good"
      "ArchFromFilename E (Name key) = Inl err" by blast
    with True have "obj # objects = (obj # good) @ key # rest \<and> list_all (decodes E) (obj # good)
        \<and> ArchFromFilename E (Name key) = Inl err" by simp
    then show ?thesis by blast
  qed
qed

text \<open>
  Claim C2. \<open>ListOplogArchives\<close> is all-or-nothing. Given the objects the oplog folder
  lists: if every key decodes, the result is the list of all the decoded archives, in
  listing order, with a nil error; if some key does not decode, the result is a nil
  slice together with an error that wraps the decoder's error and carries, in its
  message, the name of the first key that does not decode. No result holds a part of
  the archives.
\<close>

theorem ListOplogArchives_all_or_nothing:
  assumes listed: "ListFolder E h (sd_oplogsFolder sd) = Inr objects"
  shows "(list_all (decodes E) objects \<longrightarrow>
            fst (ListOplogArchives E sd h) = (Some (map (decoded E) objects), None))
       \<and> (\<not> list_all (decodes E) objects \<longrightarrow>
            (\<exists>good key rest err.
               objects = good @ key # rest \<and> list_all (decodes E) good
               \<and> ArchFromFilename E (Name key) = Inl err
               \<and> fst (ListOplogArchives E sd h) =
                   (None,
                    Some (fmt_Errorf_w
                            (''can not convert retrieve timestamps since oplog archive Ext ''
                               @ quote @ Name key @ quote @ '': '') err []))))"
proof (intro conjI impI)
  assume "list_all (decodes E) objects"
  then have "ListOplogArchives_loop E objects [] = Inr (map (decoded E) objects)"
    using ListOplogArchives_loop_ok [of E objects "[]"] by simp
  with listed show "fst (ListOplogArchives E sd h) = (Some (map (decoded E) objects), None)"
    by (simp add: ListOplogArchives_def do_ListFolder_def)
next
  assume "\<not> list_all (decodes E) objects"
  from first_undecodable [OF this] obtain good key rest err where
    split: "objects = good @ key # rest" and good: "list_all (decodes E) good"
    and bad: "ArchFromFilename E (Name key) = Inl err" by blast
  have "ListOplogArchives_loop E objects [] =
     Inl (fmt_Errorf_w
            (''can not convert retrieve timestamps since oplog archive Ext ''
               @ quote @ Name key @ quote @ '': '') err [])"
    unfolding split by (rule ListOplogArchives_loop_fail [OF good bad])
  with listed have "fst (ListOplogArchives E sd h) =
     (None, Some (fmt_Errorf_w
            (''can not convert retrieve timestamps since oplog archive Ext ''
               @ quote @ Name key @ quote @ '': '') err []))"
    by (simp add: ListOplogArchives_def do_ListFolder_def)
  with split good bad show "\<exists>good key rest err.
               objects = good @ key # rest \<and> list_all (decodes E) good
               \<and> ArchFromFilename E (Name key) = Inl err
               \<and> fst (ListOplogArchives E sd h) =
                   (None,
                    Some (fmt_Errorf_w
                            (''can not convert retrieve timestamps since oplog archive Ext ''
                               @ quote @ Name key @ quote @ '': '') err []))"
    by blast
qed

theorem ListOplogArchives_all_or_nothing_witness:
  "fst (ListOplogArchives example_env example_sd []) =
     (Some [\<lparr>Start = ts 200, End = ts 350, Ext = ''br'', Type = ArchiveTypeOplog\<rparr>,
            \<lparr>Start = ts 350, End = ts 400, Ext = ''br'', Type = ArchiveTypeGap\<rparr>,
            \<lparr>Start = ts 100, End = ts 200, Ext = ''br'', Type = ArchiveTypeOplog\<rparr>], None)
   \<and> (\<exists>good key rest err.
         [\<lparr>Name = ''a'', LastModified = 1\<rparr>, \<lparr>Name = ''zz'', LastModified = 2\<rparr>]
           = good @ key # rest
         \<and> list_all (decodes strict_listing_env) good
         \<and> ArchFromFilename strict_listing_env (Name key) = Inl err
         \<and> fst (ListOplogArchives strict_listing_env example_sd []) =
             (None,
              Some (fmt_Errorf_w
                      (''can not convert retrieve timestamps since oplog archive Ext ''
                         @ quote @ Name key @ quote @ '': '') err [])))
   \<and> fst (ListOplogArchives strict_listing_env example_sd []) =
       (None,
        Some (fmt_Errorf_w
                (''can not convert retrieve timestamps since oplog archive Ext ''
                   @ quote @ ''zz'' @ quote @ '': '') (Error ''bad archive name'') []))"
proof -
  have good: "ListFolder example_env [] (sd_oplogsFolder example_sd)
      = Inr [\<lparr>Name = ''b'', LastModified = 2\<rparr>, \<lparr>Name = ''g'', LastModified = 3\<rparr>,
             \<lparr>Name = ''a'', LastModified = 1\<rparr>]"
    by (simp add: example_env_def example_sd_def)
  have all: "list_all (decodes example_env)
      [\<lparr>Name = ''b'', LastModified = 2\<rparr>, \<lparr>Name = ''g'', LastModified = 3\<rparr>,
       \<lparr>Name = ''a'', LastModified = 1\<rparr>]"
    by (simp add: decodes_def example_env_def example_ArchFromFilename_def)
  have first: "fst (ListOplogArchives example_env example_sd []) =
     (Some [\<lparr>Start = ts 200, End = ts 350, Ext = ''br'', Type = ArchiveTypeOplog\<rparr>,
            \<lparr>Start = ts 350, End = ts 400, Ext = ''br'', Type = ArchiveTypeGap\<rparr>,
            \<lparr>Start = ts 100, End = ts 200, Ext = ''br'', Type = ArchiveTypeOplog\<rparr>], None)"
    using ListOplogArchives_all_or_nothing [OF good] all
    by (simp add: decoded_def example_env_def example_ArchFromFilename_def)
  have strict: "ListFolder strict_listing_env [] (sd_oplogsFolder example_sd)
      = Inr [\<lparr>Name = ''a'', LastModified = 1\<rparr>, \<lparr>Name = ''zz'', LastModified = 2\<rparr>]"
    by (simp add: strict_listing_env_def example_env_def example_sd_def)
  have some: "\<not> list_all (decodes strict_listing_env)
      [\<lparr>Name = ''a'', LastModified = 1\<rparr>, \<lparr>Name = ''zz'', LastModified = 2\<rparr>]"
    by (simp add: decodes_def strict_listing_env_def example_env_def example_ArchFromFilename_def)
  have second: "\<exists>good key rest err.
         [\<lparr>Name = ''a'', LastModified = 1\<rparr>, \<lparr>Name = ''zz'', LastModified = 2\<rparr>]
           = good @ key # rest
         \<and> list_all (decodes strict_listing_env) good
         \<and> ArchFromFilename strict_listing_env (Name key) = Inl err
         \<and> fst (ListOplogArchives strict_listing_env example_sd []) =
             (None,
              Some (fmt_Errorf_w
                      (''can not convert retrieve timestamps since oplog archive Ext ''
                         @ quote @ Name key @ quote @ '': '') err []))"
    using ListOplogArchives_all_or_nothing [OF strict] some by blast
  have third: "fst (ListOplogArchives strict_listing_env example_sd []) =
       (None,
        Some (fmt_Errorf_w
                (''can not convert retrieve timestamps since oplog archive Ext ''
                   @ quote @ ''zz'' @ quote @ '': '') (Error ''bad archive name'') []))"
    by (simp add: ListOplogArchives_def do_ListFolder_def strict_listing_env_def example_env_def
        example_sd_def example_ArchFromFilename_def)
  from first second third show ?thesis by blast
qed

section \<open>The continuity pointer\<close>

lemma LessEqTS_refl: "LessEqTS a a"
  by (simp add: LessEqTS_def LessTS_def)

lemma LessEqTS_trans: "LessEqTS a b \<Longrightarrow> LessEqTS b c \<Longrightarrow> LessEqTS a c"
  by (auto simp: LessEqTS_def LessTS_def)

lemma LessEqTS_antisym: "LessEqTS a b \<Longrightarrow> LessEqTS b a \<Longrightarrow> a = (b :: Timestamp)"
  by (cases a, cases b) (auto simp: LessEqTS_def LessTS_def)

lemma LessEqTS_zero: "LessEqTS zero_Timestamp a"
  by (simp add: LessEqTS_def LessTS_def zero_Timestamp_def)

lemma MaxTS_upper: "LessEqTS a (MaxTS a b) \<and> LessEqTS b (MaxTS a b)"
  by (auto simp: MaxTS_def LessEqTS_def LessTS_def)

lemma MaxTS_cases: "MaxTS a b = a \<or> MaxTS a b = b"
  by (simp add: MaxTS_def)

lemma fold_MaxTS_upper:
  "LessEqTS acc (fold (\<lambda>key m. MaxTS m (f key)) keys acc)
   \<and> (\<forall>key \<in> set keys. LessEqTS (f key) (fold (\<lambda>key m. MaxTS m (f key)) keys acc))"
proof (induction keys arbitrary: acc)
  case Nil
  then show ?case by (simp add: LessEqTS_refl)
next
  case (Cons key keys)
  from Cons.IH [of "MaxTS acc (f key)"] MaxTS_upper [of acc "f key"]
  show ?case by (auto intro: LessEqTS_trans)
qed

lemma fold_MaxTS_member:
  "fold (\<lambda>key m. MaxTS m (f key)) keys acc = acc
   \<or> fold (\<lambda>key m. MaxTS m (f key)) keys acc \<in> f ` set keys"
proof (induction keys arbitrary: acc)
  case Nil
  then show ?case by simp
next
  case (Cons key keys)
  from Cons.IH [of "MaxTS acc (f key)"] MaxTS_cases [of acc "f key"]
  show ?case by auto
qed

lemma fold_MaxTS_zero_member:
  assumes "keys \<noteq> []"
  shows "fold (\<lambda>key m. MaxTS m (f key)) keys zero_Timestamp \<in> f ` set keys"
proof -
  let ?m = "fold (\<lambda>key m. MaxTS m (f key)) keys zero_Timestamp"
  from fold_MaxTS_member [of f keys zero_Timestamp] show ?thesis
  proof
    assume z: "?m = zero_Timestamp"
    from assms obtain key where key: "key \<in> set keys" by (cases keys) auto
    with fold_MaxTS_upper [of zero_Timestamp f keys] have "LessEqTS (f key) ?m" by blast
    with z have "f key = zero_Timestamp"
      using LessEqTS_antisym LessEqTS_zero by metis
    with z key show ?thesis by force
  qed simp
qed

lemma fold_MaxTS_set:
  assumes "set keys' = set keys"
  shows "fold (\<lambda>key m. MaxTS m (f key)) keys' zero_Timestamp
       = fold (\<lambda>key m. MaxTS m (f key)) keys zero_Timestamp"
proof (cases "keys = []")
  case True
  with assms show ?thesis by simp
next
  case False
  with assms have ne: "keys' \<noteq> []" by auto
  let ?m = "fold (\<lambda>key m. MaxTS m (f key)) keys zero_Timestamp"
  let ?m' = "fold (\<lambda>key m. MaxTS m (f key)) keys' zero_Timestamp"
  have "?m \<in> f ` set keys'" using fold_MaxTS_zero_member [OF False, of f] assms by simp
  then have a: "LessEqTS ?m ?m'" using fold_MaxTS_upper [of zero_Timestamp f keys'] by auto
  have "?m' \<in> f ` set keys" using fold_MaxTS_zero_member [OF ne, of f] assms by simp
  then have b: "LessEqTS ?m' ?m" using fold_MaxTS_upper [of zero_Timestamp f keys] by auto
  from a b show ?thesis by (metis LessEqTS_antisym)
qed

lemma LastKnownArchiveTS_loop_ok:
  "list_all (decodes E) keys \<Longrightarrow>
   LastKnownArchiveTS_loop E keys acc = Inr (fold (\<lambda>key m. MaxTS m (End (decoded E key))) keys acc)"
  by (induction keys arbitrary: acc)
     (auto simp: decodes_def decoded_def split: sum.splits)

lemma LastKnownArchiveTS_ok:
  assumes "ListFolder E h (sd_oplogsFolder sd) = Inr keys" and "list_all (decodes E) keys"
  shows "fst (LastKnownArchiveTS E sd h)
       = (fold (\<lambda>key m. MaxTS m (End (decoded E key))) keys zero_Timestamp, None)"
  using assms LastKnownArchiveTS_loop_ok [of E keys zero_Timestamp]
  by (simp add: LastKnownArchiveTS_def do_ListFolder_def)

lemma decoded_cong:
  "ArchFromFilename E' = ArchFromFilename E \<Longrightarrow> decoded E' = decoded E \<and> decodes E' = decodes E"
  by (auto simp: decoded_def decodes_def fun_eq_iff)

text \<open>
  Claim C3. When the oplog folder lists keys that all decode, \<open>LastKnownArchiveTS\<close>
  returns, with a nil error, the fold of \<open>MaxTS\<close> from the zero timestamp over the \<open>End\<close>
  of every decoded archive, whatever its type. That value is not earlier than any \<open>End\<close>;
  it is the zero timestamp when nothing is listed and one of the \<open>End\<close> values otherwise;
  and any listing of the same objects, in any order, gives the same value.
\<close>

theorem LastKnownArchiveTS_is_max_End:
  assumes listed: "ListFolder E h (sd_oplogsFolder sd) = Inr keys"
    and dec: "list_all (decodes E) keys"
  shows "\<exists>m. fst (LastKnownArchiveTS E sd h) = (m, None)
           \<and> m = fold (\<lambda>key acc. MaxTS acc (End (decoded E key))) keys zero_Timestamp
           \<and> (\<forall>key \<in> set keys. LessEqTS (End (decoded E key)) m)
           \<and> (keys = [] \<longrightarrow> m = zero_Timestamp)
           \<and> (keys \<noteq> [] \<longrightarrow> m \<in> (\<lambda>key. End (decoded E key)) ` set keys)
           \<and> (\<forall>(E' :: env) h' keys'.
                 ListFolder E' h' (sd_oplogsFolder sd) = Inr keys' \<and> set keys' = set keys
                 \<and> ArchFromFilename E' = ArchFromFilename E \<longrightarrow>
                 fst (LastKnownArchiveTS E' sd h') = (m, None))"
proof -
  let ?f = "\<lambda>key. End (decoded E key)"
  let ?m = "fold (\<lambda>key acc. MaxTS acc (?f key)) keys zero_Timestamp"
  have r: "fst (LastKnownArchiveTS E sd h) = (?m, None)"
    by (rule LastKnownArchiveTS_ok [OF listed dec])
  have u: "\<forall>key \<in> set keys. LessEqTS (?f key) ?m"
    using fold_MaxTS_upper [of zero_Timestamp ?f keys] by blast
  have e: "keys = [] \<longrightarrow> ?m = zero_Timestamp" by simp
  have n: "keys \<noteq> [] \<longrightarrow> ?m \<in> ?f ` set keys"
    using fold_MaxTS_zero_member [of keys ?f] by blast
  have o: "\<forall>E' h' keys'.
                 ListFolder E' h' (sd_oplogsFolder sd) = Inr keys' \<and> set keys' = set keys
                 \<and> ArchFromFilename E' = ArchFromFilename E \<longrightarrow>
                 fst (LastKnownArchiveTS E' sd h') = (?m, None)"
  proof (intro allI impI)
    fix E' :: env and h' keys'
    assume a: "ListFolder E' h' (sd_oplogsFolder sd) = Inr keys' \<and> set keys' = set keys
                 \<and> ArchFromFilename E' = ArchFromFilename E"
    then have c: "decoded E' = decoded E" "decodes E' = decodes E"
      using decoded_cong by blast+
    from a dec have d: "list_all (decodes E') keys'" by (simp add: c list_all_iff)
    have "fst (LastKnownArchiveTS E' sd h')
       = (fold (\<lambda>key m. MaxTS m (End (decoded E' key))) keys' zero_Timestamp, None)"
      using a d by (intro LastKnownArchiveTS_ok) simp_all
    also have "fold (\<lambda>key m. MaxTS m (End (decoded E' key))) keys' zero_Timestamp = ?m"
      unfolding c using a fold_MaxTS_set [of keys' keys ?f] by simp
    finally show "fst (LastKnownArchiveTS E' sd h') = (?m, None)" .
  qed
  from r u e n o show ?thesis by blast
qed

theorem LastKnownArchiveTS_is_max_End_witness:
  "fst (LastKnownArchiveTS example_env example_sd []) = (ts 400, None)
   \<and> fst (LastKnownArchiveTS
            (example_env\<lparr>ListFolder := (\<lambda>h f. Inr [\<lparr>Name = ''a'', LastModified = 1\<rparr>,
                                                    \<lparr>Name = ''b'', LastModified = 2\<rparr>,
                                                    \<lparr>Name = ''g'', LastModified = 3\<rparr>])\<rparr>)
            example_sd [])
       = (ts 400, None)"
proof -
  have listed: "ListFolder example_env [] (sd_oplogsFolder example_sd)
      = Inr [\<lparr>Name = ''b'', LastModified = 2\<rparr>, \<lparr>Name = ''g'', LastModified = 3\<rparr>,
             \<lparr>Name = ''a'', LastModified = 1\<rparr>]"
    by (simp add: example_env_def example_sd_def)
  have all: "list_all (decodes example_env)
      [\<lparr>Name = ''b'', LastModified = 2\<rparr>, \<lparr>Name = ''g'', LastModified = 3\<rparr>,
       \<lparr>Name = ''a'', LastModified = 1\<rparr>]"
    by (simp add: decodes_def example_env_def example_ArchFromFilename_def)
  from LastKnownArchiveTS_is_max_End [OF listed all] obtain m where
    m: "fst (LastKnownArchiveTS example_env example_sd []) = (m, None)"
    and val: "m = fold (\<lambda>key acc. MaxTS acc (End (decoded example_env key)))
        [\<lparr>Name = ''b'', LastModified = 2\<rparr>, \<lparr>Name = ''g'', LastModified = 3\<rparr>,
         \<lparr>Name = ''a'', LastModified = 1\<rparr>] zero_Timestamp"
    and other: "\<forall>(E' :: env) h' keys'.
        ListFolder E' h' (sd_oplogsFolder example_sd) = Inr keys'
        \<and> set keys' = set [\<lparr>Name = ''b'', LastModified = 2\<rparr>, \<lparr>Name = ''g'', LastModified = 3\<rparr>,
                            \<lparr>Name = ''a'', LastModified = 1\<rparr>]
        \<and> ArchFromFilename E' = ArchFromFilename example_env \<longrightarrow>
        fst (LastKnownArchiveTS E' example_sd h') = (m, None)"
    by blast
  have "m = ts 400"
    unfolding val
    by (simp add: decoded_def example_env_def example_ArchFromFilename_def MaxTS_def LessTS_def
        ts_def zero_Timestamp_def)
  moreover have "fst (LastKnownArchiveTS
            (example_env\<lparr>ListFolder := (\<lambda>h f. Inr [\<lparr>Name = ''a'', LastModified = 1\<rparr>,
                                                    \<lparr>Name = ''b'', LastModified = 2\<rparr>,
                                                    \<lparr>Name = ''g'', LastModified = 3\<rparr>])\<rparr>)
            example_sd []) = (m, None)"
    by (rule other [rule_format]) (auto simp: example_env_def)
  ultimately show ?thesis using m by simp
qed

section \<open>Loading backups\<close>

lemma mset_sift: "mset (sift lt x pre) = add_mset x (mset pre)"
  by (induction pre) auto

lemma mset_foldl_sift: "mset (foldl (\<lambda>pre x. sift lt x pre) acc xs) = mset acc + mset xs"
  by (induction xs arbitrary: acc) (auto simp: mset_sift)

lemma mset_sort_Slice: "mset (sort_Slice lt xs) = mset xs"
  by (simp add: sort_Slice_def mset_foldl_sift)

lemma set_sift: "set (sift lt x pre) = insert x (set pre)"
  using mset_sift [of lt x pre] by (metis set_mset_add_mset_insert set_mset_mset)

lemma sorted_sift:
  fixes key :: "'a \<Rightarrow> int"
  assumes "sorted_wrt (\<lambda>a b. key a \<le> key b) pre"
  shows "sorted_wrt (\<lambda>a b. key a \<le> key b) (sift (\<lambda>a b. key b < key a) x pre)"
  using assms
proof (induction pre)
  case Nil
  then show ?case by simp
next
  case (Cons y pre)
  then show ?case by (auto simp: set_sift)
qed

lemma sorted_foldl_sift:
  fixes key :: "'a \<Rightarrow> int"
  assumes "sorted_wrt (\<lambda>a b. key a \<le> key b) acc"
  shows "sorted_wrt (\<lambda>a b. key a \<le> key b)
           (foldl (\<lambda>pre x. sift (\<lambda>a b. key b < key a) x pre) acc xs)"
  using assms by (induction xs arbitrary: acc) (auto simp: sorted_sift)

lemma sorted_sort_Slice:
  fixes key :: "'a \<Rightarrow> int"
  shows "sorted_wrt (\<lambda>a b. key b \<le> key a) (sort_Slice (\<lambda>a b. key b < key a) xs)"
proof -
  have "sorted_wrt (\<lambda>a b. key a \<le> key b)
          (foldl (\<lambda>pre x. sift (\<lambda>a b. key b < key a) x pre) [] xs)"
    by (rule sorted_foldl_sift) simp
  then show ?thesis by (simp add: sort_Slice_def sorted_wrt_rev)
qed

lemma length_BackupMeta_each: "length (BackupMeta_each E sd names h) = length names"
  by (induction names arbitrary: h) (auto split: prod.splits)

lemma LoadBackups_loop_ok:
  "list_all (\<lambda>r. snd r = None) (BackupMeta_each E sd names h) \<Longrightarrow>
   fst (LoadBackups_loop E sd names acc h) = Inr (acc @ map fst (BackupMeta_each E sd names h))"
proof (induction names arbitrary: acc h)
  case Nil
  then show ?case by simp
next
  case (Cons name names)
  obtain b e h1 where bm: "BackupMeta E sd name h = ((b, e), h1)"
    by (metis surj_pair)
  with Cons.prems have e: "e = None"
    and rest: "list_all (\<lambda>r. snd r = None) (BackupMeta_each E sd names h1)"
    by simp_all
  show ?case using Cons.IH [OF rest, of "acc @ [b]"] bm e by simp
qed

lemma LoadBackups_loop_fail:
  "BackupMeta_each E sd names h = oks @ (b, Some err) # rest \<Longrightarrow>
   list_all (\<lambda>r. snd r = None) oks \<Longrightarrow>
   fst (LoadBackups_loop E sd names acc h) = Inl err"
proof (induction names arbitrary: acc h oks)
  case Nil
  then show ?case by simp
next
  case (Cons name names)
  obtain b1 e1 h1 where bm: "BackupMeta E sd name h = ((b1, e1), h1)"
    by (metis surj_pair)
  show ?case
  proof (cases oks)
    case Nil
    with Cons.prems bm show ?thesis by simp
  next
    case (Cons ok oks')
    with Cons.prems bm have "e1 = None"
      and "BackupMeta_each E sd names h1 = oks' @ (b, Some err) # rest"
      and "list_all (\<lambda>r. snd r = None) oks'"
      by auto
    with Cons.IH [of h1 oks' "acc @ [b1]"] bm show ?thesis by simp
  qed
qed

text \<open>
  Claim C5. \<open>LoadBackups\<close> resolves the names in order with \<open>BackupMeta\<close>. If every
  name resolves, the result is a nil error and a slice that holds exactly the resolved
  backups (one per name, as a multiset the backups \<open>BackupMeta\<close> returned), ordered by
  \<open>FinishLocalTime\<close> from the latest to the earliest. If some name fails, the result is
  a nil slice and the error \<open>BackupMeta\<close> returned for the first name that fails.
\<close>

theorem LoadBackups_all_or_error_sorted:
  "(list_all (\<lambda>r. snd r = None) (BackupMeta_each E sd names h) \<longrightarrow>
      (\<exists>backups. fst (LoadBackups E sd names h) = (Some backups, None)
         \<and> mset backups = mset (map fst (BackupMeta_each E sd names h))
         \<and> length backups = length names
         \<and> sorted_wrt (\<lambda>a b. FinishLocalTime b \<le> FinishLocalTime a) backups))
   \<and> (BackupMeta_each E sd names h = oks @ (b, Some err) # rest
        \<and> list_all (\<lambda>r. snd r = None) oks \<longrightarrow>
      fst (LoadBackups E sd names h) = (None, Some err))"
proof (intro conjI impI)
  assume ok: "list_all (\<lambda>r. snd r = None) (BackupMeta_each E sd names h)"
  let ?each = "map fst (BackupMeta_each E sd names h)"
  let ?sorted = "sort_Slice (\<lambda>bi bj. After (FinishLocalTime bi) (FinishLocalTime bj)) ?each"
  have loop: "fst (LoadBackups_loop E sd names [] h) = Inr ?each"
    using LoadBackups_loop_ok [OF ok, of "[]"] by simp
  have res: "fst (LoadBackups E sd names h) = (Some ?sorted, None)"
    using loop by (cases "LoadBackups_loop E sd names [] h") (simp add: LoadBackups_def)
  have m: "mset ?sorted = mset ?each" by (rule mset_sort_Slice)
  have "length ?sorted = length ?each" using m by (metis size_mset)
  then have l: "length ?sorted = length names" by (simp add: length_BackupMeta_each)
  have s: "sorted_wrt (\<lambda>a b. FinishLocalTime b \<le> FinishLocalTime a) ?sorted"
    unfolding After_def by (rule sorted_sort_Slice)
  show "\<exists>backups. fst (LoadBackups E sd names h) = (Some backups, None)
         \<and> mset backups = mset (map fst (BackupMeta_each E sd names h))
         \<and> length backups = length names
         \<and> sorted_wrt (\<lambda>a b. FinishLocalTime b \<le> FinishLocalTime a) backups"
    using res m l s by blast
next
  assume "BackupMeta_each E sd names h = oks @ (b, Some err) # rest
      \<and> list_all (\<lambda>r. snd r = None) oks"
  then have "fst (LoadBackups_loop E sd names [] h) = Inl err"
    using LoadBackups_loop_fail by blast
  then show "fst (LoadBackups E sd names h) = (None, Some err)"
    by (cases "LoadBackups_loop E sd names [] h") (simp add: LoadBackups_def)
qed

theorem LoadBackups_all_or_error_sorted_witness:
  "fst (LoadBackups example_env example_sd [''b1'', ''b2''] []) =
     (Some [\<lparr>BackupName = ''b2'', StartLocalTime = 30, FinishLocalTime = 40,
              UserData = [], MongoMeta = []\<rparr>,
            \<lparr>BackupName = ''b1'', StartLocalTime = 10, FinishLocalTime = 20,
              UserData = [], MongoMeta = []\<rparr>], None)
   \<and> fst (LoadBackups example_env example_sd [''b1'', ''b9'', ''b2''] []) =
     (None, Some (fmt_Errorf_w ''can not fetch stream sentinel: '' (Error ''no such object'') []))"
proof -
  have each: "BackupMeta_each example_env example_sd [''b1'', ''b2''] [] =
     [(\<lparr>BackupName = ''b1'', StartLocalTime = 10, FinishLocalTime = 20,
         UserData = [], MongoMeta = []\<rparr>, None),
      (\<lparr>BackupName = ''b2'', StartLocalTime = 30, FinishLocalTime = 40,
         UserData = [], MongoMeta = []\<rparr>, None)]"
    by (simp add: BackupMeta_def do_FetchStreamSentinel_def example_env_def example_sentinel_def)
  have ok: "list_all (\<lambda>r. snd r = None) (BackupMeta_each example_env example_sd [''b1'', ''b2''] [])"
    unfolding each by simp
  from LoadBackups_all_or_error_sorted [THEN conjunct1, rule_format, OF ok]
  obtain backups where
    res: "fst (LoadBackups example_env example_sd [''b1'', ''b2''] []) = (Some backups, None)"
    and len: "length backups = length [''b1'', ''b2'']"
    and srt: "sorted_wrt (\<lambda>a b. FinishLocalTime b \<le> FinishLocalTime a) backups"
    by blast
  have "fst (LoadBackups example_env example_sd [''b1'', ''b2''] []) =
     (Some [\<lparr>BackupName = ''b2'', StartLocalTime = 30, FinishLocalTime = 40,
              UserData = [], MongoMeta = []\<rparr>,
            \<lparr>BackupName = ''b1'', StartLocalTime = 10, FinishLocalTime = 20,
              UserData = [], MongoMeta = []\<rparr>], None)"
    by (simp add: LoadBackups_def BackupMeta_def do_FetchStreamSentinel_def example_env_def
        example_sentinel_def example_sd_def sort_Slice_def After_def)
  with res len srt have first: "fst (LoadBackups example_env example_sd [''b1'', ''b2''] []) =
     (Some [\<lparr>BackupName = ''b2'', StartLocalTime = 30, FinishLocalTime = 40,
              UserData = [], MongoMeta = []\<rparr>,
            \<lparr>BackupName = ''b1'', StartLocalTime = 10, FinishLocalTime = 20,
              UserData = [], MongoMeta = []\<rparr>], None)"
    by simp
  have each2: "BackupMeta_each example_env example_sd [''b1'', ''b9'', ''b2''] [] =
     [(\<lparr>BackupName = ''b1'', StartLocalTime = 10, FinishLocalTime = 20,
         UserData = [], MongoMeta = []\<rparr>, None)]
     @ (zero_Backup,
        Some (fmt_Errorf_w ''can not fetch stream sentinel: '' (Error ''no such object'') []))
     # [(\<lparr>BackupName = ''b2'', StartLocalTime = 30, FinishLocalTime = 40,
         UserData = [], MongoMeta = []\<rparr>, None)]"
    by (simp add: BackupMeta_def do_FetchStreamSentinel_def example_env_def example_sentinel_def)
  have second: "fst (LoadBackups example_env example_sd [''b1'', ''b9'', ''b2''] []) =
     (None, Some (fmt_Errorf_w ''can not fetch stream sentinel: '' (Error ''no such object'') []))"
    using LoadBackups_all_or_error_sorted [THEN conjunct2, rule_format, OF conjI, OF each2]
    by simp
  from first second show ?thesis by simp
qed

section \<open>Deleting backups\<close>

lemma DeleteBackups_loop_ok:
  "list_all (\<lambda>r. \<not> isl r) (GetTarNames_each E sp backups h) \<Longrightarrow>
   DeleteBackups_loop E sp backups keys h =
     (Inr (keys @ concat (map2 (owned_keys E sp) backups
                            (map projr (GetTarNames_each E sp backups h)))),
      h @ map (\<lambda>backup. GetTarNames_call (NewBackup (sp_backupsFolder sp) (BackupName backup)))
            backups)"
proof (induction backups arbitrary: keys h)
  case Nil
  then show ?case by simp
next
  case (Cons backup backups)
  let ?b = "NewBackup (sp_backupsFolder sp) (BackupName backup)"
  from Cons.prems obtain dataKeys where listed: "GetTarNames E h ?b = Inr dataKeys"
    by (cases "GetTarNames E h ?b") (auto simp: do_GetTarNames_def)
  with Cons.prems
  have rest: "list_all (\<lambda>r. \<not> isl r) (GetTarNames_each E sp backups (h @ [GetTarNames_call ?b]))"
    by (simp add: do_GetTarNames_def)
  show ?case
    using Cons.IH [OF rest, of "(keys @ dataKeys) @ [GetStopSentinelPath E ?b]"] listed
    by (simp add: do_GetTarNames_def owned_keys_def Let_def)
qed

lemma DeleteBackups_loop_fail:
  "GetTarNames_each E sp backups h = oks @ Inl err # rest \<Longrightarrow>
   list_all (\<lambda>r. \<not> isl r) oks \<Longrightarrow>
   DeleteBackups_loop E sp backups keys h =
     (Inl err,
      h @ map (\<lambda>backup. GetTarNames_call (NewBackup (sp_backupsFolder sp) (BackupName backup)))
            (take (Suc (length oks)) backups))"
proof (induction backups arbitrary: keys h oks)
  case Nil
  then show ?case by simp
next
  case (Cons backup backups)
  let ?b = "NewBackup (sp_backupsFolder sp) (BackupName backup)"
  show ?case
  proof (cases oks)
    case Nil
    with Cons.prems show ?thesis by (simp add: do_GetTarNames_def Let_def)
  next
    case (Cons ok oks')
    from Cons Cons.prems have head: "GetTarNames E h ?b = ok" and "\<not> isl ok"
      and rest: "GetTarNames_each E sp backups (h @ [GetTarNames_call ?b]) = oks' @ Inl err # rest"
      and oks': "list_all (\<lambda>r. \<not> isl r) oks'"
      by (simp_all add: do_GetTarNames_def)
    then obtain dataKeys where listed: "GetTarNames E h ?b = Inr dataKeys"
      by (cases ok) auto
    show ?thesis
      using Cons.IH [OF rest oks', of "(keys @ dataKeys) @ [GetStopSentinelPath E ?b]"] listed Cons
      by (simp add: do_GetTarNames_def Let_def)
  qed
qed

lemma no_delete_among_listings:
  "filter is_DeleteObjects_call
     (map (\<lambda>backup. GetTarNames_call (NewBackup folder (BackupName backup))) backups) = []"
  by (induction backups) (simp_all add: is_DeleteObjects_call_def)

text \<open>
  Claim C7, as stated, has \<open>DeleteBackups\<close> issue exactly one batch delete for every list
  of backups. It asks each backup for its data-part keys first and returns on the
  first listing that fails: for a backup whose listing fails, the error comes back and
  no \<open>DeleteObjects\<close> call is made.
\<close>

theorem DeleteBackups_no_batch_counterexample:
  "DeleteBackups example_env example_sp [backup_named ''b9''] []
     = (Some (Error ''can not list''), [GetTarNames_call (NewBackup (Folder ''base'') ''b9'')])"
  by (simp add: DeleteBackups_def do_GetTarNames_def Let_def example_env_def example_sp_def
      backup_named_def example_tar_names_def)

text \<open>
  Claim C7, amended. \<open>DeleteBackups\<close> asks each backup, in order, for its data-part keys.
  When every one of these listings answers, the keys it has accumulated are, backup by
  backup, the data-part keys followed by that backup's sentinel key, and nothing else;
  it then makes exactly one \<open>DeleteObjects\<close> call on the backups folder with that list
  (the delete calls among the calls made are that one call), and its result is the
  result of that call. When a listing fails, it returns that error, asks no further
  backup, and makes no \<open>DeleteObjects\<close> call.
\<close>

theorem DeleteBackups_one_batch:
  "(list_all (\<lambda>r. \<not> isl r) (GetTarNames_each E sp backups h) \<longrightarrow>
      DeleteBackups E sp backups h =
        (DeleteObjects E
           (h @ map (\<lambda>backup. GetTarNames_call (NewBackup (sp_backupsFolder sp) (BackupName backup)))
                  backups)
           (sp_backupsFolder sp)
           (concat (map2 (owned_keys E sp) backups (map projr (GetTarNames_each E sp backups h)))),
         h @ map (\<lambda>backup. GetTarNames_call (NewBackup (sp_backupsFolder sp) (BackupName backup)))
               backups
           @ [DeleteObjects_call (sp_backupsFolder sp)
                (concat (map2 (owned_keys E sp) backups
                           (map projr (GetTarNames_each E sp backups h))))])
      \<and> filter is_DeleteObjects_call (drop (length h) (snd (DeleteBackups E sp backups h)))
          = [DeleteObjects_call (sp_backupsFolder sp)
               (concat (map2 (owned_keys E sp) backups
                          (map projr (GetTarNames_each E sp backups h))))])
   \<and> (GetTarNames_each E sp backups h = oks @ Inl err # rest
        \<and> list_all (\<lambda>r. \<not> isl r) oks \<longrightarrow>
      DeleteBackups E sp backups h =
        (Some err,
         h @ map (\<lambda>backup. GetTarNames_call (NewBackup (sp_backupsFolder sp) (BackupName backup)))
               (take (Suc (length oks)) backups))
      \<and> filter is_DeleteObjects_call (drop (length h) (snd (DeleteBackups E sp backups h))) = [])"
proof (intro conjI impI)
  assume "list_all (\<lambda>r. \<not> isl r) (GetTarNames_each E sp backups h)"
  from DeleteBackups_loop_ok [OF this, of "[]"]
  show batch: "DeleteBackups E sp backups h =
        (DeleteObjects E
           (h @ map (\<lambda>backup. GetTarNames_call (NewBackup (sp_backupsFolder sp) (BackupName backup)))
                  backups)
           (sp_backupsFolder sp)
           (concat (map2 (owned_keys E sp) backups (map projr (GetTarNames_each E sp backups h)))),
         h @ map (\<lambda>backup. GetTarNames_call (NewBackup (sp_backupsFolder sp) (BackupName backup)))
               backups
           @ [DeleteObjects_call (sp_backupsFolder sp)
                (concat (map2 (owned_keys E sp) backups
                           (map projr (GetTarNames_each E sp backups h))))])"
    by (simp add: DeleteBackups_def do_DeleteObjects_def split: option.splits)
  show "filter is_DeleteObjects_call (drop (length h) (snd (DeleteBackups E sp backups h)))
          = [DeleteObjects_call (sp_backupsFolder sp)
               (concat (map2 (owned_keys E sp) backups
                          (map projr (GetTarNames_each E sp backups h))))]"
    unfolding batch by (simp add: no_delete_among_listings is_DeleteObjects_call_def)
next
  assume "GetTarNames_each E sp backups h = oks @ Inl err # rest \<and> list_all (\<lambda>r. \<not> isl r) oks"
  then have "DeleteBackups_loop E sp backups [] h =
     (Inl err,
      h @ map (\<lambda>backup. GetTarNames_call (NewBackup (sp_backupsFolder sp) (BackupName backup)))
            (take (Suc (length oks)) backups))"
    using DeleteBackups_loop_fail by blast
  then show stopped: "DeleteBackups E sp backups h =
        (Some err,
         h @ map (\<lambda>backup. GetTarNames_call (NewBackup (sp_backupsFolder sp) (BackupName backup)))
               (take (Suc (length oks)) backups))"
    by (simp add: DeleteBackups_def)
  show "filter is_DeleteObjects_call (drop (length h) (snd (DeleteBackups E sp backups h))) = []"
    unfolding stopped by (simp add: no_delete_among_listings)
qed

theorem DeleteBackups_one_batch_witness:
  "DeleteBackups example_env example_sp [backup_named ''b1'', backup_named ''b2''] [] =
     (None,
      [GetTarNames_call (NewBackup (Folder ''base'') ''b1''),
       GetTarNames_call (NewBackup (Folder ''base'') ''b2''),
       DeleteObjects_call (Folder ''base'')
         [''b1/p1'', ''b1/p2'', ''b1.json'', ''b2/p1'', ''b2.json'']])
   \<and> DeleteBackups example_env example_sp [backup_named ''b1'', backup_named ''b9''] [] =
     (Some (Error ''can not list''),
      [GetTarNames_call (NewBackup (Folder ''base'') ''b1''),
       GetTarNames_call (NewBackup (Folder ''base'') ''b9'')])"
proof -
  have each: "GetTarNames_each example_env example_sp [backup_named ''b1'', backup_named ''b2''] []
      = [Inr [''b1/p1'', ''b1/p2''], Inr [''b2/p1'']]"
    by (simp add: do_GetTarNames_def example_env_def example_sp_def backup_named_def
        example_tar_names_def)
  have ok: "list_all (\<lambda>r. \<not> isl r)
      (GetTarNames_each example_env example_sp [backup_named ''b1'', backup_named ''b2''] [])"
    unfolding each by simp
  have first: "DeleteBackups example_env example_sp [backup_named ''b1'', backup_named ''b2''] [] =
     (None,
      [GetTarNames_call (NewBackup (Folder ''base'') ''b1''),
       GetTarNames_call (NewBackup (Folder ''base'') ''b2''),
       DeleteObjects_call (Folder ''base'')
         [''b1/p1'', ''b1/p2'', ''b1.json'', ''b2/p1'', ''b2.json'']])"
    using DeleteBackups_one_batch [THEN conjunct1, rule_format, OF ok]
    unfolding each
    by (simp add: owned_keys_def example_env_def example_sp_def backup_named_def)
  have each2: "GetTarNames_each example_env example_sp [backup_named ''b1'', backup_named ''b9''] []
      = [Inr [''b1/p1'', ''b1/p2'']] @ Inl (Error ''can not list'') # []"
    by (simp add: do_GetTarNames_def example_env_def example_sp_def backup_named_def
        example_tar_names_def)
  have second: "DeleteBackups example_env example_sp [backup_named ''b1'', backup_named ''b9''] [] =
     (Some (Error ''can not list''),
      [GetTarNames_call (NewBackup (Folder ''base'') ''b1''),
       GetTarNames_call (NewBackup (Folder ''base'') ''b9'')])"
    using DeleteBackups_one_batch [THEN conjunct2, rule_format, OF conjI, OF each2]
    by (simp add: example_sp_def backup_named_def)
  from first second show ?thesis by simp
qed

section \<open>The reusable buffer of the store-backed uploader\<close>

lemma UploadOplogArchive_keeps_buffer_empty:
  "su_buf su = [] \<Longrightarrow>
   su_buf (fst (snd (StorageUploader_UploadOplogArchive E su stream firstTS lastTS h))) = []"
  by (simp add: StorageUploader_UploadOplogArchive_def Buffer_ReadFrom_def Buffer_Reset_def
      do_Upload_def split: sum.splits option.splits)

lemma UploadOplogArchive_run_keeps_buffer_empty:
  "su_buf su = [] \<Longrightarrow> su_buf (fst (UploadOplogArchive_run E su requests h)) = []"
proof (induction requests arbitrary: su h)
  case Nil
  then show ?case by simp
next
  case (Cons request requests)
  obtain stream firstTS lastTS where request: "request = (stream, firstTS, lastTS)"
    by (cases request)
  obtain r su1 h1 where step:
    "StorageUploader_UploadOplogArchive E su stream firstTS lastTS h = (r, su1, h1)"
    by (cases "StorageUploader_UploadOplogArchive E su stream firstTS lastTS h")
  from UploadOplogArchive_keeps_buffer_empty [OF Cons.prems, of E stream firstTS lastTS h] step
  have "su_buf su1 = []" by simp
  from Cons.IH [OF this] request step show ?case by simp
qed

lemma UploadOplogArchive_early_return_leaves_buffer:
  "NewArchive E firstTS lastTS (FileExtension (Compression E)) ArchiveTypeOplog = Inl err \<Longrightarrow>
   StorageUploader_UploadOplogArchive E su stream firstTS lastTS h =
     (Some (fmt_Errorf_w ''can not build archive: '' err []), su, h)"
  by (simp add: StorageUploader_UploadOplogArchive_def)

text \<open>
  Claim C9. An uploader made by \<open>NewStorageUploader\<close> has an empty buffer, and after
  every \<open>UploadOplogArchive\<close> call of any run of such calls, failed or not, the buffer
  is empty again. So the next call starts from an empty buffer: when it reaches the
  store, the bytes it hands to \<open>Upload\<close> are exactly those its own stream delivers
  after compression and encryption, under the name of the archive built for
  (firstTS, lastTS, the compressor's extension, Oplog). (The return taken when the
  archive cannot be built comes before the deferred reset is registered; it leaves the
  buffer as it found it, which is empty.)
\<close>

theorem UploadOplogArchive_buffer_cleared:
  "su_buf (fst (UploadOplogArchive_run E (fst (NewStorageUploader E h0)) requests h)) = []
   \<and> (NewArchive E firstTS lastTS (FileExtension (Compression E)) ArchiveTypeOplog = Inr arch
      \<and> read_error (CompressAndEncrypt E stream (Compression E)
            (su_crypter (fst (UploadOplogArchive_run E (fst (NewStorageUploader E h0)) requests h))))
          = None \<longrightarrow>
      snd (snd (StorageUploader_UploadOplogArchive E
                  (fst (UploadOplogArchive_run E (fst (NewStorageUploader E h0)) requests h))
                  stream firstTS lastTS h'))
        = h' @ [Upload_call (Filename E arch)
                  (Reader
                     (delivered (CompressAndEncrypt E stream (Compression E)
                        (su_crypter
                           (fst (UploadOplogArchive_run E (fst (NewStorageUploader E h0))
                                   requests h)))))
                     None)])"
proof -
  have fresh: "su_buf (fst (NewStorageUploader E h0)) = []"
    by (simp add: NewStorageUploader_def)
  have empty: "su_buf (fst (UploadOplogArchive_run E (fst (NewStorageUploader E h0)) requests h)) = []"
    by (rule UploadOplogArchive_run_keeps_buffer_empty [OF fresh])
  show ?thesis
    using empty
    by (simp add: StorageUploader_UploadOplogArchive_def Buffer_ReadFrom_def do_Upload_def
        bytes_NewReader_def split: sum.splits option.splits)
qed

theorem UploadOplogArchive_buffer_cleared_witness:
  "su_buf (fst (UploadOplogArchive_run example_env (fst (NewStorageUploader example_env []))
             [(Reader ''abc'' None, ts 100, ts 200),
              (Reader ''de'' (Some (Error ''broken pipe'')), ts 200, ts 350)] [])) = []
   \<and> snd (snd (StorageUploader_UploadOplogArchive example_env
                 (fst (UploadOplogArchive_run example_env (fst (NewStorageUploader example_env []))
                         [(Reader ''abc'' None, ts 100, ts 200),
                          (Reader ''de'' (Some (Error ''broken pipe'')), ts 200, ts 350)] []))
                 (Reader ''xyz'' None) (ts 350) (ts 400) []))
       = [Upload_call ''o.br'' (Reader ''xyz'' None)]"
  using UploadOplogArchive_buffer_cleared [where E = example_env and ?h0.0 = "[]" and h = "[]"
      and h' = "[]" and stream = "Reader ''xyz'' None" and firstTS = "ts 350" and lastTS = "ts 400"
      and arch = "\<lparr>Start = ts 350, End = ts 400, Ext = ''br'', Type = ArchiveTypeOplog\<rparr>"
      and requests = "[(Reader ''abc'' None, ts 100, ts 200),
                       (Reader ''de'' (Some (Error ''broken pipe'')), ts 200, ts 350)]"]
  by (simp add: example_env_def)

end
